theory Spec2Isabelle
  imports Main "HOL-Library.Word"
begin

unbundle bit_operations_syntax

section \<open>Common types\<close>

text \<open>
  \<open>page_id_t\<close> and \<open>frame_id_t\<close> are signed 32-bit integers in the sources; they are
  only compared, stored and incremented by one, so they are modelled as \<open>int\<close>.
  \<open>size_t\<close> counters that the code decrements (and that would wrap below zero) are
  64-bit words.
\<close>

type_synonym page_id_t = int
type_synonym frame_id_t = int
type_synonym size_t = "64 word"

definition INVALID_PAGE_ID :: page_id_t where
  "INVALID_PAGE_ID = -1"

text \<open>
  Failures of the code that are not ordinary return values: a failing \<open>BUSTUB_ASSERT\<close>
  (the debug build aborts), \<open>front()\<close> of an empty list, \<open>at()\<close> of a missing key, an
  index outside an array or outside the used slots of a page, and a page of one kind
  read through a pointer to the other kind. \<open>OutOfFuel\<close> is not a failure of the code:
  loops and recursions whose end depends on the shape of the stored pages take a bound
  on their number of rounds, and \<open>OutOfFuel\<close> says that the bound was reached.
\<close>

datatype failure =
    InvalidFrameId
  | NonEvictableFrame
  | EmptyHistory
  | MissingKey
  | OutOfRange
  | WrongPageType
  | OutOfFuel

section \<open>LRU-K replacer (lru\_k\_replacer.cpp)\<close>

text \<open>
  \<open>history_\<close> maps a frame id to the list of its recorded timestamps (oldest at the
  front) and \<open>evictable_\<close> maps a frame id to its flag. \<open>Evict\<close> iterates over
  \<open>history_\<close>; the order of that iteration belongs to the container type, which the
  header fixes, so \<open>history_\<close> is an association list with distinct keys whose entry
  order stands for the iteration order. Nothing proved below depends on that order.
\<close>

record LRUKReplacer =
  replacer_size :: size_t
  k :: size_t
  current_timestamp :: size_t
  curr_size :: size_t
  history :: "(frame_id_t \<times> size_t list) list"
  evictable :: "frame_id_t \<rightharpoonup> bool"

definition LRUKReplacer_new :: "size_t \<Rightarrow> size_t \<Rightarrow> LRUKReplacer" where
  "LRUKReplacer_new num_frames kk =
     \<lparr>replacer_size = num_frames, k = kk, current_timestamp = 0, curr_size = 0,
      history = [], evictable = Map.empty\<rparr>"

text \<open>\<open>static_cast<size_t>(frame_id) < replacer_size_\<close>: a negative id becomes a huge value.\<close>

definition valid_frame :: "LRUKReplacer \<Rightarrow> frame_id_t \<Rightarrow> bool" where
  "valid_frame r fid \<longleftrightarrow> (word_of_int fid :: size_t) < replacer_size r"

definition tracked :: "LRUKReplacer \<Rightarrow> frame_id_t \<Rightarrow> bool" where
  "tracked r fid \<longleftrightarrow> map_of (history r) fid \<noteq> None"

text \<open>\<open>evictable_.find(fid) != evictable_.end() && evictable_[fid]\<close>\<close>

definition is_evictable :: "LRUKReplacer \<Rightarrow> frame_id_t \<Rightarrow> bool" where
  "is_evictable r fid \<longleftrightarrow> evictable r fid = Some True"


definition hist_erase :: "frame_id_t \<Rightarrow> (frame_id_t \<times> size_t list) list
    \<Rightarrow> (frame_id_t \<times> size_t list) list" where
  "hist_erase fid es = filter (\<lambda>e. fst e \<noteq> fid) es"


definition SetEvictable :: "LRUKReplacer \<Rightarrow> frame_id_t \<Rightarrow> bool \<Rightarrow> failure + LRUKReplacer" where
  "SetEvictable r fid set_evictable =
     (if \<not> valid_frame r fid then Inl InvalidFrameId
      else if \<not> tracked r fid then Inr r
      else if is_evictable r fid = set_evictable then Inr r
      else Inr (r\<lparr>evictable := (evictable r)(fid \<mapsto> set_evictable),
                   curr_size := (if set_evictable then curr_size r + 1 else curr_size r - 1)\<rparr>))"

definition Replacer_Remove :: "LRUKReplacer \<Rightarrow> frame_id_t \<Rightarrow> failure + LRUKReplacer" where
  "Replacer_Remove r fid =
     (if \<not> valid_frame r fid then Inl InvalidFrameId
      else if \<not> tracked r fid then Inr r
      else if \<not> is_evictable r fid then Inl NonEvictableFrame
      else Inr (r\<lparr>history := hist_erase fid (history r),
                   evictable := (evictable r)(fid := None),
                   curr_size := curr_size r - 1\<rparr>))"

definition Size :: "LRUKReplacer \<Rightarrow> size_t" where
  "Size r = curr_size r"

subsection \<open>Evict\<close>












text \<open>A replacer state with two tracked frames, one of them evictable, for examples.\<close>

definition rem_state :: LRUKReplacer where
  "rem_state = \<lparr>replacer_size = 3, k = 2, current_timestamp = 2, curr_size = 1,
      history = [(0, [0]), (1, [1])], evictable = [0 \<mapsto> True]\<rparr>"




section \<open>Extendible hash table (extendible\_hash\_table.cpp)\<close>

text \<open>
  The member functions \<open>Find\<close>, \<open>Insert\<close> and \<open>Remove\<close> of the table carry the
  prefix \<open>HT_\<close>, since the replacer and the index have members of the same names.
  Directory slots are \<open>shared_ptr\<close>s and several slots may point to one bucket, so the
  buckets live in a store (\<open>heap\<close>, indexed by address) and the directory holds
  addresses; \<open>make_shared\<close> appends to the store. \<open>std::hash\<close> is a parameter of the
  table (\<open>hasher\<close>). Depths are non-negative counters. The masks \<open>(1 << global_depth_) - 1\<close>
  and \<open>1 << (local_depth - 1)\<close> are computed on \<open>int\<close> in the source; the model is exact
  for depths below 31, where the shift does not overflow.
\<close>

record ('k, 'v) Bucket =
  size_bkt :: nat
  depth :: nat
  items :: "('k \<times> 'v) list"

record ('k, 'v) ExtendibleHashTable =
  hasher :: "'k \<Rightarrow> nat"
  global_depth :: nat
  bucket_size :: nat
  num_buckets :: nat
  dir :: "nat list"
  heap :: "('k, 'v) Bucket list"

definition ExtendibleHashTable_new :: "('k \<Rightarrow> nat) \<Rightarrow> nat \<Rightarrow> ('k, 'v) ExtendibleHashTable" where
  "ExtendibleHashTable_new h bsize =
     \<lparr>hasher = h, global_depth = 0, bucket_size = bsize, num_buckets = 1, dir = [0],
      heap = [\<lparr>size_bkt = bsize, depth = 0, items = []\<rparr>]\<rparr>"

definition IndexOf :: "('k, 'v) ExtendibleHashTable \<Rightarrow> 'k \<Rightarrow> nat" where
  "IndexOf t key = hasher t key AND (push_bit (global_depth t) 1 - 1)"

text \<open>\<open>dir_[i]\<close> followed by the dereference of the bucket pointer.\<close>

definition bucket_at :: "('k, 'v) ExtendibleHashTable \<Rightarrow> nat \<Rightarrow> failure + (nat \<times> ('k, 'v) Bucket)" where
  "bucket_at t i =
     (if i < length (dir t) \<and> dir t ! i < length (heap t)
      then Inr (dir t ! i, heap t ! (dir t ! i)) else Inl OutOfRange)"

definition GetGlobalDepth :: "('k, 'v) ExtendibleHashTable \<Rightarrow> nat" where
  "GetGlobalDepth t = global_depth t"

definition GetLocalDepth :: "('k, 'v) ExtendibleHashTable \<Rightarrow> nat \<Rightarrow> failure + nat" where
  "GetLocalDepth t dir_index =
     (case bucket_at t dir_index of Inl e \<Rightarrow> Inl e | Inr (a, b) \<Rightarrow> Inr (depth b))"

definition GetNumBuckets :: "('k, 'v) ExtendibleHashTable \<Rightarrow> nat" where
  "GetNumBuckets t = num_buckets t"

subsection \<open>Bucket\<close>

text \<open>
  Modelled from the spec: \<open>Bucket::IsFull\<close> is defined in the header, which is not among
  the sources. The specification gives a bucket "up to \<open>bucket_size\<close> items" and lets
  Insert append "if the bucket has room".
\<close>

definition IsFull :: "('k, 'v) Bucket \<Rightarrow> bool" where
  "IsFull b \<longleftrightarrow> size_bkt b \<le> length (items b)"

fun Bucket_Find :: "('k \<times> 'v) list \<Rightarrow> 'k \<Rightarrow> 'v option" where
  "Bucket_Find [] key = None"
| "Bucket_Find ((k', v') # its) key = (if k' = key then Some v' else Bucket_Find its key)"

fun Bucket_Remove :: "('k \<times> 'v) list \<Rightarrow> 'k \<Rightarrow> ('k \<times> 'v) list option" where
  "Bucket_Remove [] key = None"
| "Bucket_Remove ((k', v') # its) key =
     (if k' = key then Some its
      else case Bucket_Remove its key of None \<Rightarrow> None | Some its' \<Rightarrow> Some ((k', v') # its'))"

text \<open>The first loop of \<open>Bucket::Insert\<close>: overwrite the value of an existing key.\<close>

fun Bucket_overwrite :: "('k \<times> 'v) list \<Rightarrow> 'k \<Rightarrow> 'v \<Rightarrow> ('k \<times> 'v) list option" where
  "Bucket_overwrite [] key v = None"
| "Bucket_overwrite ((k', v') # its) key v =
     (if k' = key then Some ((k', v) # its)
      else case Bucket_overwrite its key v of None \<Rightarrow> None | Some its' \<Rightarrow> Some ((k', v') # its'))"

definition Bucket_Insert :: "('k, 'v) Bucket \<Rightarrow> 'k \<Rightarrow> 'v \<Rightarrow> ('k, 'v) Bucket option" where
  "Bucket_Insert b key v =
     (case Bucket_overwrite (items b) key v of
        Some its' \<Rightarrow> Some (b\<lparr>items := its'\<rparr>)
      | None \<Rightarrow> if IsFull b then None else Some (b\<lparr>items := items b @ [(key, v)]\<rparr>))"

subsection \<open>Table operations\<close>

definition HT_Find :: "('k, 'v) ExtendibleHashTable \<Rightarrow> 'k \<Rightarrow> failure + 'v option" where
  "HT_Find t key =
     (case bucket_at t (IndexOf t key) of
        Inl e \<Rightarrow> Inl e
      | Inr (a, b) \<Rightarrow> Inr (Bucket_Find (items b) key))"

definition HT_Remove :: "('k, 'v) ExtendibleHashTable \<Rightarrow> 'k
    \<Rightarrow> failure + (('k, 'v) ExtendibleHashTable \<times> bool)" where
  "HT_Remove t key =
     (case bucket_at t (IndexOf t key) of
        Inl e \<Rightarrow> Inl e
      | Inr (a, b) \<Rightarrow>
          (case Bucket_Remove (items b) key of
             None \<Rightarrow> Inr (t, False)
           | Some its' \<Rightarrow> Inr (t\<lparr>heap := (heap t)[a := b\<lparr>items := its'\<rparr>]\<rparr>, True)))"

text \<open>
  The directory loop of \<open>RedistributeBucket\<close>: slot \<open>i\<close> is repointed when it holds the
  split bucket and \<open>i & split_mask\<close> is not zero.
\<close>

fun repoint :: "nat \<Rightarrow> nat \<Rightarrow> nat \<Rightarrow> nat \<Rightarrow> nat list \<Rightarrow> nat list" where
  "repoint old new split_mask i [] = []"
| "repoint old new split_mask i (a # as) =
     (if a = old \<and> i AND split_mask \<noteq> 0 then new else a) # repoint old new split_mask (Suc i) as"

definition RedistributeBucket :: "('k, 'v) ExtendibleHashTable \<Rightarrow> nat \<Rightarrow> ('k, 'v) ExtendibleHashTable" where
  "RedistributeBucket t a =
     (let b = heap t ! a;
          local_depth = depth b + 1;
          new_addr = length (heap t);
          split_mask = push_bit (local_depth - 1) (1::nat);
          moved = filter (\<lambda>item. hasher t (fst item) AND split_mask \<noteq> 0) (items b);
          kept = filter (\<lambda>item. \<not> hasher t (fst item) AND split_mask \<noteq> 0) (items b);
          new_bucket = \<lparr>size_bkt = bucket_size t, depth = local_depth, items = moved\<rparr>
      in t\<lparr>heap := (heap t)[a := b\<lparr>depth := local_depth, items := kept\<rparr>] @ [new_bucket],
            dir := repoint a new_addr split_mask 0 (dir t),
            num_buckets := num_buckets t + 1\<rparr>)"

text \<open>The block of \<open>Insert\<close> that doubles the directory.\<close>

definition double_directory :: "('k, 'v) ExtendibleHashTable \<Rightarrow> ('k, 'v) ExtendibleHashTable" where
  "double_directory t = t\<lparr>global_depth := global_depth t + 1, dir := dir t @ dir t\<rparr>"

text \<open>One pass of the \<open>while (true)\<close> body after the bucket refused the pair.\<close>

definition split_once :: "('k, 'v) ExtendibleHashTable \<Rightarrow> nat \<Rightarrow> ('k, 'v) Bucket
    \<Rightarrow> ('k, 'v) ExtendibleHashTable" where
  "split_once t a b =
     RedistributeBucket (if depth b = global_depth t then double_directory t else t) a"

text \<open>
  \<open>Insert\<close> loops until the bucket accepts the pair; the loop need not end (a bucket
  size of zero, or more than \<open>bucket_size\<close> keys with one hash), so the result is an
  option and \<open>None\<close> stands for a loop that never returns.
\<close>

partial_function (option) HT_Insert :: "('k, 'v) ExtendibleHashTable \<Rightarrow> 'k \<Rightarrow> 'v
    \<Rightarrow> (failure + ('k, 'v) ExtendibleHashTable) option" where
  "HT_Insert t key v =
     (case bucket_at t (IndexOf t key) of
        Inl e \<Rightarrow> Some (Inl e)
      | Inr (a, b) \<Rightarrow>
          (case Bucket_Insert b key v of
             Some b' \<Rightarrow> Some (Inr (t\<lparr>heap := (heap t)[a := b']\<rparr>))
           | None \<Rightarrow> HT_Insert (split_once t a b) key v))"

text \<open>
  The same loop with a bound on the number of passes through the body of
  \<open>while (true)\<close>: \<open>None\<close> when the pair is not yet placed after \<open>n\<close> passes.
\<close>

fun HT_Insert_passes :: "nat \<Rightarrow> ('k, 'v) ExtendibleHashTable \<Rightarrow> 'k \<Rightarrow> 'v
    \<Rightarrow> (failure + ('k, 'v) ExtendibleHashTable) option" where
  "HT_Insert_passes 0 t key v = None"
| "HT_Insert_passes (Suc n) t key v =
     (case bucket_at t (IndexOf t key) of
        Inl e \<Rightarrow> Some (Inl e)
      | Inr (a, b) \<Rightarrow>
          (case Bucket_Insert b key v of
             Some b' \<Rightarrow> Some (Inr (t\<lparr>heap := (heap t)[a := b']\<rparr>))
           | None \<Rightarrow> HT_Insert_passes n (split_once t a b) key v))"

text \<open>A sequence of inserts, for scenarios.\<close>

fun insert_all :: "('k, 'v) ExtendibleHashTable \<Rightarrow> ('k \<times> 'v) list
    \<Rightarrow> (failure + ('k, 'v) ExtendibleHashTable) option" where
  "insert_all t [] = Some (Inr t)"
| "insert_all t ((key, v) # kvs) =
     (case HT_Insert t key v of
        None \<Rightarrow> None
      | Some (Inl e) \<Rightarrow> Some (Inl e)
      | Some (Inr t') \<Rightarrow> insert_all t' kvs)"

text \<open>\<open>std::hash<int>\<close>: the value converted to \<open>size_t\<close>.\<close>

definition hash_int :: "int \<Rightarrow> nat" where
  "hash_int x = nat (x mod 2 ^ 64)"


text \<open>
  The tables of scenario S1 (bucket size 2, \<open>hash(x) = x\<close>): after the first two
  inserts, after the split that the third insert makes, and after the third insert.
\<close>

definition S1_full :: "(int, string) ExtendibleHashTable" where
  "S1_full = \<lparr>hasher = hash_int, global_depth = 0, bucket_size = 2, num_buckets = 1,
      dir = [0],
      heap = [\<lparr>size_bkt = 2, depth = 0, items = [(1, ''a''), (2, ''b'')]\<rparr>]\<rparr>"

definition S1_mid :: "(int, string) ExtendibleHashTable" where
  "S1_mid = \<lparr>hasher = hash_int, global_depth = 1, bucket_size = 2, num_buckets = 2,
      dir = [0, 1],
      heap = [\<lparr>size_bkt = 2, depth = 1, items = [(2, ''b'')]\<rparr>,
              \<lparr>size_bkt = 2, depth = 1, items = [(1, ''a'')]\<rparr>]\<rparr>"

definition S1_table :: "(int, string) ExtendibleHashTable" where
  "S1_table = \<lparr>hasher = hash_int, global_depth = 1, bucket_size = 2, num_buckets = 2,
      dir = [0, 1],
      heap = [\<lparr>size_bkt = 2, depth = 1, items = [(2, ''b'')]\<rparr>,
              \<lparr>size_bkt = 2, depth = 1, items = [(1, ''a''), (3, ''c'')]\<rparr>]\<rparr>"

section \<open>Buffer pool manager (buffer\_pool\_manager\_instance.cpp)\<close>

text \<open>
  A frame (\<open>Page\<close>) holds the page id, the pin count, the dirty bit and the bytes. The
  array \<open>pages_\<close> has \<open>pool_size_\<close> entries, so the pool size is the length of \<open>pages\<close>.
  The disk manager is a collaborator; what the pool asks of it is recorded: \<open>disk_writes\<close>
  lists the \<open>WritePage(page_id, data)\<close> calls made so far, oldest first.
\<close>

record Page =
  page_id :: page_id_t
  pin_count :: int
  is_dirty :: bool
  data :: "8 word list"

record BufferPoolManagerInstance =
  pages :: "Page list"
  page_table :: "(page_id_t, frame_id_t) ExtendibleHashTable"
  replacer :: LRUKReplacer
  free_list :: "frame_id_t list"
  next_page_id_ctr :: page_id_t
  disk_writes :: "(page_id_t \<times> 8 word list) list"

text \<open>\<open>pages_[frame_id]\<close>\<close>

definition frame_at :: "BufferPoolManagerInstance \<Rightarrow> frame_id_t \<Rightarrow> failure + Page" where
  "frame_at bpm fid =
     (if 0 \<le> fid \<and> nat fid < length (pages bpm) then Inr (pages bpm ! nat fid)
      else Inl OutOfRange)"

definition UnpinPgImp :: "BufferPoolManagerInstance \<Rightarrow> page_id_t \<Rightarrow> bool
    \<Rightarrow> failure + (BufferPoolManagerInstance \<times> bool)" where
  "UnpinPgImp bpm pid dirty =
     (case HT_Find (page_table bpm) pid of
        Inl e \<Rightarrow> Inl e
      | Inr None \<Rightarrow> Inr (bpm, False)
      | Inr (Some fid) \<Rightarrow>
          (case frame_at bpm fid of
             Inl e \<Rightarrow> Inl e
           | Inr page \<Rightarrow>
               if pin_count page \<le> 0 then Inr (bpm, False)
               else
                 let page' = page\<lparr>pin_count := pin_count page - 1,
                                   is_dirty := (if dirty then True else is_dirty page)\<rparr>;
                     bpm' = bpm\<lparr>pages := (pages bpm)[nat fid := page']\<rparr>
                 in if pin_count page' = 0
                    then (case SetEvictable (replacer bpm) fid True of
                            Inl e \<Rightarrow> Inl e
                          | Inr r' \<Rightarrow> Inr (bpm'\<lparr>replacer := r'\<rparr>, True))
                    else Inr (bpm', True)))"

definition FlushPgImp :: "BufferPoolManagerInstance \<Rightarrow> page_id_t
    \<Rightarrow> failure + (BufferPoolManagerInstance \<times> bool)" where
  "FlushPgImp bpm pid =
     (if pid = INVALID_PAGE_ID then Inr (bpm, False)
      else case HT_Find (page_table bpm) pid of
             Inl e \<Rightarrow> Inl e
           | Inr None \<Rightarrow> Inr (bpm, False)
           | Inr (Some fid) \<Rightarrow>
               (case frame_at bpm fid of
                  Inl e \<Rightarrow> Inl e
                | Inr page \<Rightarrow>
                    Inr (bpm\<lparr>disk_writes := disk_writes bpm @ [(pid, data page)],
                             pages := (pages bpm)[nat fid := page\<lparr>is_dirty := False\<rparr>]\<rparr>,
                         True)))"

text \<open>
  The loop of \<open>FlushAllPgsImp\<close> over the frames \<open>ps\<close> still to visit; it returns the
  frames as it leaves them and the writes it issued, in order.
\<close>

fun flush_frames :: "Page list \<Rightarrow> Page list \<times> (page_id_t \<times> 8 word list) list" where
  "flush_frames [] = ([], [])"
| "flush_frames (page # ps) =
     (let (ps', ws) = flush_frames ps
      in if page_id page \<noteq> INVALID_PAGE_ID
         then (page\<lparr>is_dirty := False\<rparr> # ps', (page_id page, data page) # ws)
         else (page # ps', ws))"

definition FlushAllPgsImp :: "BufferPoolManagerInstance \<Rightarrow> BufferPoolManagerInstance" where
  "FlushAllPgsImp bpm =
     (let (ps', ws) = flush_frames (pages bpm)
      in bpm\<lparr>pages := ps', disk_writes := disk_writes bpm @ ws\<rparr>)"


text \<open>
  A pool of three frames for examples: page 5 pinned once and clean in frame 0, page 6
  unpinned and dirty in frame 1, frame 2 free.
\<close>

definition bpm_example :: BufferPoolManagerInstance where
  "bpm_example =
     \<lparr>pages = [\<lparr>page_id = 5, pin_count = 1, is_dirty = False, data = [1, 2]\<rparr>,
               \<lparr>page_id = 6, pin_count = 0, is_dirty = True, data = [3]\<rparr>,
               \<lparr>page_id = INVALID_PAGE_ID, pin_count = 0, is_dirty = False, data = []\<rparr>],
      page_table = \<lparr>hasher = hash_int, global_depth = 0, bucket_size = 4, num_buckets = 1,
                     dir = [0], heap = [\<lparr>size_bkt = 4, depth = 0, items = [(5, 0), (6, 1)]\<rparr>]\<rparr>,
      replacer = \<lparr>replacer_size = 3, k = 2, current_timestamp = 2, curr_size = 1,
                   history = [(0, [0]), (1, [1])], evictable = [1 \<mapsto> True]\<rparr>,
      free_list = [2], next_page_id_ctr = 7, disk_writes = []\<rparr>"

section \<open>B+-tree index (b\_plus\_tree.cpp)\<close>

text \<open>
  The index is modelled for one thread that passes a transaction object, over a buffer
  pool that always has a frame to give: \<open>NewPage\<close> returns a page with the next unused
  id, \<open>FetchPage\<close> returns the page stored under an id and \<open>nullptr\<close> when there is
  none, \<open>DeletePage\<close> drops the page. Latches, pin counts, the transaction's page set
  and the header-page record of the root id have no effect on the contents of the tree
  in such a run and are left out.

  Keys are compared by the injected comparator, a total order: the key type is a linear
  order and \<open>comparator_(a, b)\<close> is negative, zero or positive as \<open>a < b\<close>, \<open>a = b\<close> or
  \<open>b < a\<close>. \<open>KeyType{}\<close>, which fills the unused key of slot 0 of an internal page, is
  \<open>0\<close>. A page stores its items in an array and its item count in \<open>size_\<close>; the
  model keeps the list of the first \<open>size_\<close> items, so \<open>GetSize\<close> is its length,
  \<open>SetSize\<close> to a smaller count truncates it, and a read at a slot that is not below the
  size is \<open>OutOfRange\<close>.
\<close>

datatype ('k, 'v) BPlusTreePage =
    LeafPage (parent_page_id: page_id_t) (max_size: int)
      (leaf_items: "('k \<times> 'v) list") (next_page_id: page_id_t)
  | InternalPage (parent_page_id: page_id_t) (max_size: int)
      (entries: "('k \<times> page_id_t) list")

record ('k, 'v) BPlusTree =
  root_page_id :: page_id_t
  leaf_max_size :: int
  internal_max_size :: int
  store :: "page_id_t \<rightharpoonup> ('k, 'v) BPlusTreePage"
  fresh_page_id :: page_id_t

definition BPlusTree_new :: "int \<Rightarrow> int \<Rightarrow> page_id_t \<Rightarrow> ('k, 'v) BPlusTree" where
  "BPlusTree_new leaf_max internal_max first_id =
     \<lparr>root_page_id = INVALID_PAGE_ID, leaf_max_size = leaf_max,
      internal_max_size = internal_max, store = Map.empty, fresh_page_id = first_id\<rparr>"

definition IsEmpty :: "('k, 'v) BPlusTree \<Rightarrow> bool" where
  "IsEmpty t \<longleftrightarrow> root_page_id t = INVALID_PAGE_ID"

definition GetRootPageId :: "('k, 'v) BPlusTree \<Rightarrow> page_id_t" where
  "GetRootPageId t = root_page_id t"

subsection \<open>Page accessors\<close>

definition IsLeafPage :: "('k, 'v) BPlusTreePage \<Rightarrow> bool" where
  "IsLeafPage p = (case p of LeafPage _ _ _ _ \<Rightarrow> True | InternalPage _ _ _ \<Rightarrow> False)"

definition IsRootPage :: "('k, 'v) BPlusTreePage \<Rightarrow> bool" where
  "IsRootPage p \<longleftrightarrow> parent_page_id p = INVALID_PAGE_ID"

definition GetSize :: "('k, 'v) BPlusTreePage \<Rightarrow> int" where
  "GetSize p = (case p of LeafPage _ _ its _ \<Rightarrow> int (length its)
                        | InternalPage _ _ es \<Rightarrow> int (length es))"

text \<open>
  Modelled from the spec: \<open>GetMinSize\<close> is a member of the page classes, whose sources
  are not among the files. The specification gives \<open>\<lceil>max_size/2\<rceil>\<close> for a leaf and
  \<open>\<lceil>(max_size+1)/2\<rceil>\<close> for an internal page.
\<close>

definition GetMinSize :: "('k, 'v) BPlusTreePage \<Rightarrow> int" where
  "GetMinSize p = (case p of LeafPage _ m _ _ \<Rightarrow> (m + 1) div 2
                           | InternalPage _ m _ \<Rightarrow> (m + 2) div 2)"

definition SetParentPageId :: "page_id_t \<Rightarrow> ('k, 'v) BPlusTreePage \<Rightarrow> ('k, 'v) BPlusTreePage" where
  "SetParentPageId pid p =
     (case p of LeafPage _ m its nx \<Rightarrow> LeafPage pid m its nx
              | InternalPage _ m es \<Rightarrow> InternalPage pid m es)"

text \<open>\<open>buffer_pool_manager_->NewPage\<close>, \<open>FetchPage\<close>, \<open>DeletePage\<close> and a write through the page pointer.\<close>

definition FetchPage :: "('k, 'v) BPlusTree \<Rightarrow> page_id_t \<Rightarrow> ('k, 'v) BPlusTreePage option" where
  "FetchPage t pid = store t pid"

definition put_page :: "page_id_t \<Rightarrow> ('k, 'v) BPlusTreePage \<Rightarrow> ('k, 'v) BPlusTree \<Rightarrow> ('k, 'v) BPlusTree" where
  "put_page pid p t = t\<lparr>store := (store t)(pid \<mapsto> p)\<rparr>"

definition NewPage :: "('k, 'v) BPlusTreePage \<Rightarrow> ('k, 'v) BPlusTree \<Rightarrow> page_id_t \<times> ('k, 'v) BPlusTree" where
  "NewPage p t =
     (fresh_page_id t,
      t\<lparr>store := (store t)(fresh_page_id t \<mapsto> p), fresh_page_id := fresh_page_id t + 1\<rparr>)"

definition DeletePage :: "page_id_t \<Rightarrow> ('k, 'v) BPlusTree \<Rightarrow> ('k, 'v) BPlusTree" where
  "DeletePage pid t = t\<lparr>store := (store t)(pid := None)\<rparr>"

subsection \<open>Loops over the items of a page\<close>

text \<open>
  The descent loop \<open>index = 1; while (index < size && key >= KeyAt(index)) index++\<close>:
  \<open>count_le key es\<close> is the number of rounds it makes over the entries \<open>es\<close> from slot 1 on.
\<close>

fun count_le :: "'k::linorder \<Rightarrow> ('k \<times> page_id_t) list \<Rightarrow> nat" where
  "count_le key [] = 0"
| "count_le key ((k', c) # es) = (if k' \<le> key then Suc (count_le key es) else 0)"

definition child_for :: "'k::linorder \<Rightarrow> ('k \<times> page_id_t) list \<Rightarrow> failure + page_id_t" where
  "child_for key es =
     (case es of [] \<Rightarrow> Inl OutOfRange
               | e # rest \<Rightarrow> Inr (snd (es ! count_le key rest)))"

text \<open>
  The scan of a leaf in \<open>Insert\<close>: the slot where the loop stops and whether it stopped
  at an equal key.
\<close>

fun leaf_scan :: "'k::linorder \<Rightarrow> ('k \<times> 'v) list \<Rightarrow> nat \<times> bool" where
  "leaf_scan key [] = (0, False)"
| "leaf_scan key ((k', v') # its) =
     (if key = k' then (0, True)
      else if key < k' then (0, False)
      else (let (pos, dup) = leaf_scan key its in (Suc pos, dup)))"

text \<open>
  The scan of a leaf in \<open>GetValue\<close> and \<open>Remove\<close>: the slot of the key, if the loop
  reaches an equal key before a greater one.
\<close>

fun leaf_find :: "'k::linorder \<Rightarrow> ('k \<times> 'v) list \<Rightarrow> nat option" where
  "leaf_find key [] = None"
| "leaf_find key ((k', v') # its) =
     (if key = k' then Some 0
      else if key < k' then None
      else map_option Suc (leaf_find key its))"

text \<open>The first slot of an internal page whose child pointer is \<open>pid\<close>.\<close>

fun value_index :: "page_id_t \<Rightarrow> ('k \<times> page_id_t) list \<Rightarrow> nat option" where
  "value_index pid [] = None"
| "value_index pid ((k', c) # es) =
     (if c = pid then Some 0 else map_option Suc (value_index pid es))"

text \<open>Shifting the tail right by one and writing slot \<open>pos\<close>; shifting the tail left over slot \<open>pos\<close>.\<close>

definition insert_at :: "nat \<Rightarrow> 'a \<Rightarrow> 'a list \<Rightarrow> 'a list" where
  "insert_at pos x xs = take pos xs @ x # drop pos xs"

definition remove_at :: "nat \<Rightarrow> 'a list \<Rightarrow> 'a list" where
  "remove_at pos xs = take pos xs @ drop (Suc pos) xs"

definition SetKeyAt :: "nat \<Rightarrow> 'k \<Rightarrow> ('k \<times> page_id_t) list \<Rightarrow> ('k \<times> page_id_t) list" where
  "SetKeyAt i key es = es[i := (key, snd (es ! i))]"

subsection \<open>FindLeafPage\<close>

text \<open>
  The walk from the page \<open>pid\<close> down to a leaf; \<open>None\<close> is the \<open>nullptr\<close> the function
  returns when a fetch fails. The operation type only selects the latches.
\<close>

fun descend :: "nat \<Rightarrow> ('k::linorder, 'v) BPlusTree \<Rightarrow> 'k \<Rightarrow> bool \<Rightarrow> page_id_t
    \<Rightarrow> ('k, 'v) BPlusTreePage \<Rightarrow> failure + page_id_t option" where
  "descend 0 t key left_most pid node = Inl OutOfFuel"
| "descend (Suc n) t key left_most pid node =
     (case node of
        LeafPage _ _ _ _ \<Rightarrow> Inr (Some pid)
      | InternalPage _ _ es \<Rightarrow>
          (case (if left_most
                 then (case es of [] \<Rightarrow> Inl OutOfRange | e # _ \<Rightarrow> Inr (snd e))
                 else child_for key es) of
             Inl e \<Rightarrow> Inl e
           | Inr next_id \<Rightarrow>
               (case FetchPage t next_id of
                  None \<Rightarrow> Inr None
                | Some child \<Rightarrow> descend n t key left_most next_id child)))"

definition FindLeafPage :: "nat \<Rightarrow> ('k::linorder, 'v) BPlusTree \<Rightarrow> 'k \<Rightarrow> bool
    \<Rightarrow> failure + page_id_t option" where
  "FindLeafPage n t key left_most =
     (if root_page_id t = INVALID_PAGE_ID then Inr None
      else case FetchPage t (root_page_id t) of
             None \<Rightarrow> Inr None
           | Some node \<Rightarrow> descend n t key left_most (root_page_id t) node)"

subsection \<open>GetValue\<close>

definition GetValue :: "nat \<Rightarrow> ('k::linorder, 'v) BPlusTree \<Rightarrow> 'k \<Rightarrow> failure + 'v list" where
  "GetValue n t key =
     (case FindLeafPage n t key False of
        Inl e \<Rightarrow> Inl e
      | Inr None \<Rightarrow> Inr []
      | Inr (Some pid) \<Rightarrow>
          (case FetchPage t pid of
             Some (LeafPage _ _ its _) \<Rightarrow>
               (case leaf_find key its of
                  None \<Rightarrow> Inr []
                | Some i \<Rightarrow> Inr [snd (its ! i)])
           | _ \<Rightarrow> Inl WrongPageType))"


subsection \<open>Insert\<close>

text \<open>
  The loop of \<open>InsertIntoParent\<close> that sets the parent pointer of every child moved to
  the new internal page; it stops at the first child that cannot be fetched, and the
  flag tells whether it ran to the end.
\<close>

fun reparent_children :: "page_id_t \<Rightarrow> page_id_t list \<Rightarrow> ('k, 'v) BPlusTree
    \<Rightarrow> ('k, 'v) BPlusTree \<times> bool" where
  "reparent_children new_id [] t = (t, True)"
| "reparent_children new_id (child_id # cs) t =
     (case FetchPage t child_id of
        None \<Rightarrow> (t, False)
      | Some child \<Rightarrow>
          reparent_children new_id cs (put_page child_id (SetParentPageId new_id child) t))"

fun InsertIntoParent :: "nat \<Rightarrow> ('k::{linorder,zero}, 'v) BPlusTree \<Rightarrow> page_id_t \<Rightarrow> page_id_t
    \<Rightarrow> 'k \<Rightarrow> page_id_t \<Rightarrow> failure + ('k, 'v) BPlusTree" where
  "InsertIntoParent 0 t parent_id left_id key right_id = Inl OutOfFuel"
| "InsertIntoParent (Suc n) t parent_id left_id key right_id =
     (if parent_id = INVALID_PAGE_ID then
        (let (new_root_id, t1) =
               NewPage (InternalPage INVALID_PAGE_ID (internal_max_size t)
                          [(0, left_id), (key, right_id)]) t
         in case (FetchPage t1 left_id, FetchPage t1 right_id) of
              (Some left_node, Some right_node) \<Rightarrow>
                (let t2 = put_page left_id (SetParentPageId new_root_id left_node) t1
                 in case FetchPage t2 right_id of
                      None \<Rightarrow> Inr t1
                    | Some right_node' \<Rightarrow>
                        Inr ((put_page right_id (SetParentPageId new_root_id right_node') t2)
                               \<lparr>root_page_id := new_root_id\<rparr>))
            | _ \<Rightarrow> Inr t1)
      else
        (case FetchPage t parent_id of
           None \<Rightarrow> Inr t
         | Some (LeafPage _ _ _ _) \<Rightarrow> Inl WrongPageType
         | Some (InternalPage ppar pm es) \<Rightarrow>
             (let insert_pos = (case value_index left_id es of None \<Rightarrow> 0 | Some i \<Rightarrow> i + 1);
                  es1 = insert_at insert_pos (key, right_id) es;
                  t1 = put_page parent_id (InternalPage ppar pm es1) t;
                  t2 = (case FetchPage t1 right_id of
                          None \<Rightarrow> t1
                        | Some right_node \<Rightarrow>
                            put_page right_id (SetParentPageId parent_id right_node) t1)
              in case FetchPage t2 parent_id of
                   None \<Rightarrow> Inl MissingKey
                 | Some parent_node \<Rightarrow>
                     if GetSize parent_node > max_size parent_node then
                       (let split_index = (length es1 + 1) div 2
                        in if \<not> split_index < length es1 then Inl OutOfRange
                           else
                             (let middle_key = fst (es1 ! split_index);
                                  new_entries = (0, snd (es1 ! split_index)) # drop (split_index + 1) es1;
                                  (new_page_id, t3) =
                                     NewPage (InternalPage (parent_page_id parent_node)
                                                (internal_max_size t) new_entries) t2;
                                  t4 = put_page parent_id
                                         (InternalPage (parent_page_id parent_node) pm
                                            (take split_index es1)) t3;
                                  (t5, all_children) = reparent_children new_page_id (map snd new_entries) t4
                              in if \<not> all_children then Inr t5
                                 else case FetchPage t5 parent_id of
                                        None \<Rightarrow> Inl MissingKey
                                      | Some parent_node' \<Rightarrow>
                                          InsertIntoParent n t5 (parent_page_id parent_node')
                                            parent_id middle_key new_page_id))
                     else Inr t2)))"

text \<open>
  The hand-off of \<open>Insert\<close>: after the scan of the leaf \<open>pid\<close> ended behind its last
  key, the successor leaf is taken instead when its first key is not greater than the
  new key. The result is the leaf to insert into, its page, the slot and the duplicate flag.
\<close>

definition choose_leaf :: "('k::linorder, 'v) BPlusTree \<Rightarrow> 'k \<Rightarrow> page_id_t \<Rightarrow> ('k, 'v) BPlusTreePage
    \<Rightarrow> failure + (page_id_t \<times> ('k, 'v) BPlusTreePage \<times> nat \<times> bool)" where
  "choose_leaf t key pid leaf =
     (let its = leaf_items leaf;
          (insert_pos, dup) = leaf_scan key its;
          stay = Inr (pid, leaf, insert_pos, dup)
      in if length its \<le> insert_pos \<and> 0 < length its then
           (if fst (last its) < key then
              (if next_page_id leaf \<noteq> INVALID_PAGE_ID then
                 (case FetchPage t (next_page_id leaf) of
                    None \<Rightarrow> stay
                  | Some (InternalPage _ _ _) \<Rightarrow> Inl WrongPageType
                  | Some (LeafPage npar nm nits nnx) \<Rightarrow>
                      if 0 < length nits \<and> fst (hd nits) \<le> key
                      then (let (pos', dup') = leaf_scan key nits
                            in Inr (next_page_id leaf, LeafPage npar nm nits nnx, pos', dup'))
                      else stay)
               else stay)
            else stay)
         else stay)"

definition Insert :: "nat \<Rightarrow> ('k::{linorder,zero}, 'v) BPlusTree \<Rightarrow> 'k \<Rightarrow> 'v
    \<Rightarrow> failure + (('k, 'v) BPlusTree \<times> bool)" where
  "Insert n t key v =
     (if root_page_id t = INVALID_PAGE_ID then
        (let (new_page_id, t1) =
               NewPage (LeafPage INVALID_PAGE_ID (leaf_max_size t) [(key, v)] INVALID_PAGE_ID) t
         in Inr (t1\<lparr>root_page_id := new_page_id\<rparr>, True))
      else
        (case FindLeafPage n t key False of
           Inl e \<Rightarrow> Inl e
         | Inr None \<Rightarrow> Inr (t, False)
         | Inr (Some found_id) \<Rightarrow>
             (case FetchPage t found_id of
                None \<Rightarrow> Inl MissingKey
              | Some (InternalPage _ _ _) \<Rightarrow> Inl WrongPageType
              | Some (LeafPage fpar fm fits fnx) \<Rightarrow>
                  (case choose_leaf t key found_id (LeafPage fpar fm fits fnx) of
                     Inl e \<Rightarrow> Inl e
                   | Inr (pid, leaf, insert_pos, dup) \<Rightarrow>
                       if dup then Inr (t, False)
                       else
                         (let its' = insert_at insert_pos (key, v) (leaf_items leaf)
                          in if max_size leaf \<le> int (length its') then
                               (let split_index = length its' div 2;
                                    (new_page_id, t1) =
                                       NewPage (LeafPage (parent_page_id leaf) (leaf_max_size t)
                                                  (drop split_index its') (next_page_id leaf)) t;
                                    t2 = put_page pid
                                           (LeafPage (parent_page_id leaf) (max_size leaf)
                                              (take split_index its') new_page_id) t1;
                                    middle_key = fst (its' ! split_index)
                                in case InsertIntoParent n t2 (parent_page_id leaf) pid middle_key
                                          new_page_id of
                                     Inl e \<Rightarrow> Inl e
                                   | Inr t3 \<Rightarrow> Inr (t3, True))
                             else
                               Inr (put_page pid
                                      (LeafPage (parent_page_id leaf) (max_size leaf) its'
                                         (next_page_id leaf)) t,
                                    True))))))"

subsection \<open>Remove\<close>

text \<open>
  \<open>CoalesceOrRedistribute\<close>. The node pointer it is given points into the page
  \<open>page_id\<close>, so the model reads the page. The last branch is the one the source takes
  when the node or its sibling is an internal page: it releases the pages and changes
  nothing.
\<close>

fun CoalesceOrRedistribute :: "nat \<Rightarrow> ('k, 'v) BPlusTree \<Rightarrow> page_id_t
    \<Rightarrow> failure + ('k, 'v) BPlusTree" where
  "CoalesceOrRedistribute 0 t pid = Inl OutOfFuel"
| "CoalesceOrRedistribute (Suc n) t pid =
     (case FetchPage t pid of
        None \<Rightarrow> Inr t
      | Some current_node \<Rightarrow>
          if IsRootPage current_node then Inr t
          else
            (let parent_id = parent_page_id current_node
             in case FetchPage t parent_id of
                  None \<Rightarrow> Inr t
                | Some (LeafPage _ _ _ _) \<Rightarrow> Inl WrongPageType
                | Some (InternalPage ppar pm es) \<Rightarrow>
                    (case value_index pid es of
                       None \<Rightarrow> Inr t
                     | Some index_in_parent \<Rightarrow>
                         (let is_left_sibling = (0 < index_in_parent);
                              sibling_id =
                                (if 0 < index_in_parent then snd (es ! (index_in_parent - 1))
                                 else if int index_in_parent < int (length es) - 1
                                 then snd (es ! (index_in_parent + 1))
                                 else INVALID_PAGE_ID)
                          in if sibling_id = INVALID_PAGE_ID then Inr t
                             else
                               (case FetchPage t sibling_id of
                                  None \<Rightarrow> Inr t
                                | Some sibling_node \<Rightarrow>
                                    (case (current_node, sibling_node) of
                                       (LeafPage cpar cm cits cnx, LeafPage spar sm sits snx) \<Rightarrow>
                                         if GetMinSize sibling_node < GetSize sibling_node then
                                           (if is_left_sibling then
                                              (if sits = [] then Inl OutOfRange
                                               else
                                                 Inr (put_page parent_id
                                                        (InternalPage ppar pm
                                                           (SetKeyAt index_in_parent (fst (last sits)) es))
                                                     (put_page sibling_id
                                                        (LeafPage spar sm (butlast sits) snx)
                                                     (put_page pid
                                                        (LeafPage cpar cm (last sits # cits) cnx) t))))
                                            else
                                              (case sits of
                                                 [] \<Rightarrow> Inl OutOfRange
                                               | [s0] \<Rightarrow> Inl OutOfRange
                                               | s0 # s1 # srest \<Rightarrow>
                                                   Inr (put_page parent_id
                                                          (InternalPage ppar pm
                                                             (SetKeyAt (index_in_parent + 1) (fst s1) es))
                                                       (put_page sibling_id
                                                          (LeafPage spar sm (s1 # srest) snx)
                                                       (put_page pid
                                                          (LeafPage cpar cm (cits @ [s0]) cnx) t)))))
                                         else
                                           (let t1 = (if is_left_sibling
                                                      then put_page sibling_id
                                                             (LeafPage spar sm (sits @ cits) cnx) t
                                                      else put_page pid
                                                             (LeafPage cpar cm (cits @ sits) snx) t);
                                                key_index = (if is_left_sibling then index_in_parent
                                                             else index_in_parent + 1);
                                                parent_node' = InternalPage ppar pm (remove_at key_index es);
                                                t2 = put_page parent_id parent_node' t1;
                                                page_to_delete = (if is_left_sibling then pid else sibling_id);
                                                t3 = DeletePage page_to_delete t2
                                            in if GetSize parent_node' < GetMinSize parent_node'
                                                  \<and> \<not> IsRootPage parent_node'
                                               then CoalesceOrRedistribute n t3 parent_id
                                               else Inr t3)
                                     | _ \<Rightarrow> Inr t))))))"

text \<open>
  The inspection of the root at the end of \<open>Remove\<close>. An internal root of size 0 would
  have its child read from slot 0, which is beyond the size.
\<close>

definition adjust_root :: "('k, 'v) BPlusTree \<Rightarrow> failure + ('k, 'v) BPlusTree" where
  "adjust_root t =
     (if root_page_id t \<noteq> INVALID_PAGE_ID then
        (case FetchPage t (root_page_id t) of
           None \<Rightarrow> Inr t
         | Some root_node \<Rightarrow>
             if \<not> IsLeafPage root_node \<and> GetSize root_node = 0 then Inl OutOfRange
             else if IsLeafPage root_node \<and> GetSize root_node = 0 then
               Inr (DeletePage (root_page_id t) (t\<lparr>root_page_id := INVALID_PAGE_ID\<rparr>))
             else Inr t)
      else Inr t)"

definition Remove :: "nat \<Rightarrow> ('k::linorder, 'v) BPlusTree \<Rightarrow> 'k \<Rightarrow> failure + ('k, 'v) BPlusTree" where
  "Remove n t key =
     (case FindLeafPage n t key False of
        Inl e \<Rightarrow> Inl e
      | Inr None \<Rightarrow> Inr t
      | Inr (Some pid) \<Rightarrow>
          (case FetchPage t pid of
             None \<Rightarrow> Inl MissingKey
           | Some (InternalPage _ _ _) \<Rightarrow> Inl WrongPageType
           | Some (LeafPage par m its nx) \<Rightarrow>
               (case leaf_find key its of
                  None \<Rightarrow> Inr t
                | Some delete_pos \<Rightarrow>
                    (let leaf' = LeafPage par m (remove_at delete_pos its) nx;
                         t1 = put_page pid leaf' t
                     in case (if GetSize leaf' < GetMinSize leaf' \<and> \<not> IsRootPage leaf'
                              then CoalesceOrRedistribute n t1 pid else Inr t1) of
                          Inl e \<Rightarrow> Inl e
                        | Inr t2 \<Rightarrow> adjust_root t2))))"


subsection \<open>Index iterator (index\_iterator.cpp) and Begin, End\<close>

text \<open>
  The iterator holds the page id, the slot and the pointer \<open>leaf_page_\<close> into the page
  it fetched; \<open>it_leaf\<close> says that the pointer is not null, and what it points to is the
  page stored under \<open>it_page_id\<close>.
\<close>

record IndexIterator =
  it_page_id :: page_id_t
  it_index :: int
  it_leaf :: bool

definition IndexIterator_end :: IndexIterator where
  "IndexIterator_end = \<lparr>it_page_id = INVALID_PAGE_ID, it_index = 0, it_leaf = False\<rparr>"

definition IndexIterator_at :: "('k, 'v) BPlusTree \<Rightarrow> page_id_t \<Rightarrow> int \<Rightarrow> IndexIterator" where
  "IndexIterator_at t pid index =
     \<lparr>it_page_id = pid, it_index = index,
      it_leaf = (pid \<noteq> INVALID_PAGE_ID \<and> FetchPage t pid \<noteq> None)\<rparr>"

definition IsEnd :: "('k, 'v) BPlusTree \<Rightarrow> IndexIterator \<Rightarrow> failure + bool" where
  "IsEnd t it =
     (if it_page_id it = INVALID_PAGE_ID \<or> \<not> it_leaf it then Inr True
      else case FetchPage t (it_page_id it) of
             None \<Rightarrow> Inl MissingKey
           | Some p \<Rightarrow> Inr (GetSize p \<le> it_index it))"

text \<open>\<open>operator*\<close> asserts \<open>!IsEnd()\<close> and returns the item at the slot.\<close>

definition deref :: "('k, 'v) BPlusTree \<Rightarrow> IndexIterator \<Rightarrow> failure + ('k \<times> 'v)" where
  "deref t it =
     (case IsEnd t it of
        Inl e \<Rightarrow> Inl e
      | Inr True \<Rightarrow> Inl OutOfRange
      | Inr False \<Rightarrow>
          (case FetchPage t (it_page_id it) of
             Some (LeafPage _ _ its _) \<Rightarrow>
               if 0 \<le> it_index it then Inr (its ! nat (it_index it)) else Inl OutOfRange
           | _ \<Rightarrow> Inl WrongPageType))"

text \<open>\<open>operator++\<close>\<close>

definition advance :: "('k, 'v) BPlusTree \<Rightarrow> IndexIterator \<Rightarrow> failure + IndexIterator" where
  "advance t it =
     (case IsEnd t it of
        Inl e \<Rightarrow> Inl e
      | Inr True \<Rightarrow> Inr it
      | Inr False \<Rightarrow>
          (case FetchPage t (it_page_id it) of
             None \<Rightarrow> Inl MissingKey
           | Some p \<Rightarrow>
               if GetSize p \<le> it_index it + 1 then
                 (case p of
                    InternalPage _ _ _ \<Rightarrow> Inl WrongPageType
                  | LeafPage _ _ _ nx \<Rightarrow>
                      if nx = INVALID_PAGE_ID then
                        Inr \<lparr>it_page_id = INVALID_PAGE_ID, it_index = 0, it_leaf = False\<rparr>
                      else
                        Inr \<lparr>it_page_id = nx, it_index = 0, it_leaf = (FetchPage t nx \<noteq> None)\<rparr>)
               else Inr (it\<lparr>it_index := it_index it + 1\<rparr>)))"

text \<open>\<open>operator==\<close>\<close>

definition it_equal :: "IndexIterator \<Rightarrow> IndexIterator \<Rightarrow> bool" where
  "it_equal a b \<longleftrightarrow> it_page_id a = it_page_id b \<and> it_index a = it_index b"

definition End :: IndexIterator where
  "End = IndexIterator_end"

text \<open>The walk of \<open>Begin()\<close> to the leftmost leaf, from the page \<open>pid\<close>.\<close>

fun leftmost :: "nat \<Rightarrow> ('k, 'v) BPlusTree \<Rightarrow> page_id_t \<Rightarrow> ('k, 'v) BPlusTreePage
    \<Rightarrow> failure + page_id_t option" where
  "leftmost 0 t pid node = Inl OutOfFuel"
| "leftmost (Suc n) t pid node =
     (case node of
        LeafPage _ _ _ _ \<Rightarrow> Inr (Some pid)
      | InternalPage _ _ [] \<Rightarrow> Inl OutOfRange
      | InternalPage _ _ (e # _) \<Rightarrow>
          (case FetchPage t (snd e) of
             None \<Rightarrow> Inr None
           | Some child \<Rightarrow> leftmost n t (snd e) child))"

definition Begin :: "nat \<Rightarrow> ('k, 'v) BPlusTree \<Rightarrow> failure + IndexIterator" where
  "Begin n t =
     (if root_page_id t = INVALID_PAGE_ID then Inr End
      else case FetchPage t (root_page_id t) of
             None \<Rightarrow> Inr End
           | Some node \<Rightarrow>
               (case leftmost n t (root_page_id t) node of
                  Inl e \<Rightarrow> Inl e
                | Inr None \<Rightarrow> Inr End
                | Inr (Some pid) \<Rightarrow> Inr (IndexIterator_at t pid 0)))"

text \<open>
  The caller's loop \<open>for (it = Begin(); it != End(); ++it) out.push_back((*it).first)\<close>,
  from the iterator \<open>it\<close> on.
\<close>

fun collect_keys :: "nat \<Rightarrow> ('k, 'v) BPlusTree \<Rightarrow> IndexIterator \<Rightarrow> failure + 'k list" where
  "collect_keys 0 t it = Inl OutOfFuel"
| "collect_keys (Suc n) t it =
     (if it_equal it End then Inr []
      else case deref t it of
             Inl e \<Rightarrow> Inl e
           | Inr item \<Rightarrow>
               (case advance t it of
                  Inl e \<Rightarrow> Inl e
                | Inr it' \<Rightarrow>
                    (case collect_keys n t it' of
                       Inl e \<Rightarrow> Inl e
                     | Inr ks \<Rightarrow> Inr (fst item # ks))))"

subsection \<open>Sequences of operations\<close>

datatype ('k, 'v) tree_op = Ins 'k 'v | Rem 'k

fun run_ops :: "nat \<Rightarrow> ('k::{linorder,zero}, 'v) BPlusTree \<Rightarrow> ('k, 'v) tree_op list
    \<Rightarrow> failure + ('k, 'v) BPlusTree" where
  "run_ops n t [] = Inr t"
| "run_ops n t (Ins key v # ops) =
     (case Insert n t key v of Inl e \<Rightarrow> Inl e | Inr (t', _) \<Rightarrow> run_ops n t' ops)"
| "run_ops n t (Rem key # ops) =
     (case Remove n t key of Inl e \<Rightarrow> Inl e | Inr t' \<Rightarrow> run_ops n t' ops)"

text \<open>A tree of one leaf holding one key, for examples.\<close>

definition one_leaf :: "(int, int) BPlusTree" where
  "one_leaf = \<lparr>root_page_id = 1, leaf_max_size = 4, internal_max_size = 4,
      store = [1 \<mapsto> LeafPage INVALID_PAGE_ID 4 [(5, 5)] INVALID_PAGE_ID], fresh_page_id = 2\<rparr>"

subsection \<open>Size bounds of the pages, and scenarios\<close>

text \<open>
  The bound that the leaves keep: a leaf of an even \<open>max_size\<close> stays below it, a leaf of
  an odd \<open>max_size\<close> can reach it (a merge puts up to \<open>2 * min_size - 1\<close> items together).
\<close>

definition leaf_bound :: "int \<Rightarrow> nat \<Rightarrow> bool" where
  "leaf_bound L n \<longleftrightarrow> (if even L then int n < L else int n \<le> L)"

text \<open>
  A page of a tree made with the fanouts \<open>L\<close> (leaves) and \<open>I\<close> (internal pages) carries
  its fanout and is not larger than it.
\<close>

definition size_ok :: "int \<Rightarrow> int \<Rightarrow> ('k, 'v) BPlusTreePage \<Rightarrow> bool" where
  "size_ok L I p =
     (case p of LeafPage _ m its _ \<Rightarrow> m = L \<and> leaf_bound L (length its)
              | InternalPage _ m es \<Rightarrow> m = I \<and> int (length es) \<le> I)"

text \<open>Every page of the tree but those of \<open>X\<close> is within the bound.\<close>

definition sizes_bounded_but :: "int \<Rightarrow> int \<Rightarrow> page_id_t set \<Rightarrow> ('k, 'v) BPlusTree \<Rightarrow> bool" where
  "sizes_bounded_but L I X t \<longleftrightarrow>
     leaf_max_size t = L \<and> internal_max_size t = I \<and>
     (\<forall>pid p. pid \<notin> X \<longrightarrow> store t pid = Some p \<longrightarrow> size_ok L I p)"



text \<open>Inserts of keys with the key as value, and removes, for the scenarios S4 to S6.\<close>

definition inserts :: "int list \<Rightarrow> (int, int) tree_op list" where
  "inserts ks = map (\<lambda>key. Ins key key) ks"

definition removes :: "int list \<Rightarrow> (int, int) tree_op list" where
  "removes ks = map Rem ks"

definition S5_keys :: "int list" where
  "S5_keys = [5, 3, 8, 1, 4, 9, 2, 7, 6, 10, 11, 12, 13]"

text \<open>The tree that a sequence of operations leaves, when every operation returns.\<close>

definition tree_after :: "int \<Rightarrow> int \<Rightarrow> (int, int) tree_op list \<Rightarrow> (int, int) BPlusTree" where
  "tree_after L I ops = projr (run_ops 30 (BPlusTree_new L I 1) ops)"

section \<open>Properties\<close>

subsection \<open>LRU-K replacer\<close>



lemma map_of_distinct_mem:
  "distinct (map fst es) \<Longrightarrow> (f, h) \<in> set es \<Longrightarrow> map_of es f = Some h"
  by simp
















lemma hist_erase_map_of: "map_of (hist_erase f es) g = (if g = f then None else map_of es g)"
  by (induction es) (auto simp: hist_erase_def)

text \<open>
  Claim C8, as the code has it. \<open>Remove(f)\<close> fails the frame-id assertion for an id
  outside the replacer; for an id in range it returns without any change when the frame
  is not tracked, fails hard when the frame is tracked and not evictable, and for a
  tracked evictable frame drops its history and its flag, takes one from \<open>curr_size\<close>
  and leaves every other frame as it was.
\<close>

theorem Replacer_Remove_cases:
  "(\<not> valid_frame r f \<longrightarrow> Replacer_Remove r f = Inl InvalidFrameId) \<and>
   (valid_frame r f \<and> \<not> tracked r f \<longrightarrow> Replacer_Remove r f = Inr r) \<and>
   (valid_frame r f \<and> tracked r f \<and> \<not> is_evictable r f \<longrightarrow>
      Replacer_Remove r f = Inl NonEvictableFrame) \<and>
   (valid_frame r f \<and> tracked r f \<and> is_evictable r f \<longrightarrow>
      (\<exists>r'. Replacer_Remove r f = Inr r' \<and> \<not> tracked r' f \<and> evictable r' f = None \<and>
            curr_size r' = curr_size r - 1 \<and>
            (\<forall>g. g \<noteq> f \<longrightarrow> map_of (history r') g = map_of (history r) g \<and>
                             evictable r' g = evictable r g)))"
  by (simp add: Replacer_Remove_def tracked_def hist_erase_map_of)

theorem Replacer_Remove_cases_witness:
  "Replacer_Remove rem_state 7 = Inl InvalidFrameId \<and>
   Replacer_Remove rem_state 2 = Inr rem_state \<and>
   Replacer_Remove rem_state 1 = Inl NonEvictableFrame \<and>
   (\<exists>r'. Replacer_Remove rem_state 0 = Inr r' \<and> \<not> tracked r' 0 \<and> evictable r' 0 = None \<and>
      curr_size r' = 0 \<and> map_of (history r') 1 = Some [1])"
proof -
  have v: "\<not> valid_frame rem_state 7" "valid_frame rem_state 2" "valid_frame rem_state 1"
    "valid_frame rem_state 0"
    by (simp_all add: valid_frame_def rem_state_def)
  have t: "\<not> tracked rem_state 2" "tracked rem_state 1" "tracked rem_state 0"
    by (simp_all add: tracked_def rem_state_def)
  have e: "\<not> is_evictable rem_state 1" "is_evictable rem_state 0"
    by (simp_all add: is_evictable_def rem_state_def)
  have c: "curr_size rem_state - 1 = 0" "map_of (history rem_state) 1 = Some [1]"
    by (simp_all add: rem_state_def)
  show ?thesis
    using Replacer_Remove_cases [of rem_state 7] Replacer_Remove_cases [of rem_state 2]
      Replacer_Remove_cases [of rem_state 1] Replacer_Remove_cases [of rem_state 0] v t e c
    by auto
qed

text \<open>
  Claim C8 as stated fails: frame 0 of a fresh replacer is in range and not evictable
  (it is not tracked), and \<open>Remove(0)\<close> returns normally, the replacer unchanged.
\<close>

theorem Replacer_Remove_untracked_counterexample:
  "valid_frame (LRUKReplacer_new 3 2) 0 \<and> \<not> is_evictable (LRUKReplacer_new 3 2) 0 \<and>
   Replacer_Remove (LRUKReplacer_new 3 2) 0 = Inr (LRUKReplacer_new 3 2)"
  by (simp add: Replacer_Remove_def LRUKReplacer_new_def valid_frame_def is_evictable_def tracked_def)

subsection \<open>Index iterator\<close>

text \<open>
  Claim C10, as the code has it. Advancing an iterator that is at End returns it
  unchanged, so it is still at End; it compares equal to \<open>End()\<close> exactly when its page
  id is \<open>INVALID_PAGE_ID\<close> and its slot is 0, since equality looks at the pair of page
  id and slot only.
\<close>

theorem advance_at_end:
  assumes "IsEnd t it = Inr True"
  shows "\<exists>it'. advance t it = Inr it' \<and> it' = it \<and> IsEnd t it' = Inr True \<and>
           (it_equal it' End \<longleftrightarrow> it_page_id it = INVALID_PAGE_ID \<and> it_index it = 0)"
  using assms by (simp add: advance_def it_equal_def End_def IndexIterator_end_def)

theorem advance_at_end_witness:
  "IsEnd one_leaf (IndexIterator_at one_leaf 1 1) = Inr True \<and>
   advance one_leaf (IndexIterator_at one_leaf 1 1) = Inr (IndexIterator_at one_leaf 1 1) \<and>
   IsEnd one_leaf End = Inr True \<and> advance one_leaf End = Inr End \<and> it_equal End End"
proof -
  have a: "IsEnd one_leaf (IndexIterator_at one_leaf 1 1) = Inr True"
    by (simp add: IsEnd_def IndexIterator_at_def one_leaf_def FetchPage_def GetSize_def
      INVALID_PAGE_ID_def)
  have b: "IsEnd one_leaf End = Inr True"
    by (simp add: IsEnd_def End_def IndexIterator_end_def)
  show ?thesis
    using advance_at_end [OF a] advance_at_end [OF b] a b by (simp add: it_equal_def)
qed

text \<open>
  Claim C10 as stated fails: the iterator at slot 1 of a leaf with one item is at End
  and advancing leaves it there, but it does not compare equal to \<open>End()\<close>.
\<close>

theorem advance_at_end_counterexample:
  "IsEnd one_leaf (IndexIterator_at one_leaf 1 1) = Inr True \<and>
   advance one_leaf (IndexIterator_at one_leaf 1 1) = Inr (IndexIterator_at one_leaf 1 1) \<and>
   \<not> it_equal (IndexIterator_at one_leaf 1 1) End"
  by (simp add: IsEnd_def advance_def IndexIterator_at_def one_leaf_def FetchPage_def GetSize_def
      INVALID_PAGE_ID_def it_equal_def End_def IndexIterator_end_def)

subsection \<open>Extendible hash table\<close>

lemma hash_small: "hash_int 1 = 1" "hash_int 2 = 2" "hash_int 3 = 3"
  by (simp_all add: hash_int_def)

lemma HT_Insert_retry:
  "bucket_at t (IndexOf t key) = Inr (a, b) \<Longrightarrow> Bucket_Insert b key v = None
   \<Longrightarrow> HT_Insert t key v = HT_Insert (split_once t a b) key v"
  by (subst HT_Insert.simps) simp

lemma HT_Insert_done:
  "bucket_at t (IndexOf t key) = Inr (a, b) \<Longrightarrow> Bucket_Insert b key v = Some b'
   \<Longrightarrow> HT_Insert t key v = Some (Inr (t\<lparr>heap := (heap t)[a := b']\<rparr>))"
  by (subst HT_Insert.simps) simp

lemma HT_Insert_passes_returns:
  "HT_Insert_passes n t key v = Some r \<Longrightarrow> HT_Insert t key v = Some r"
proof (induction n arbitrary: t)
  case 0
  then show ?case by simp
next
  case (Suc n)
  show ?case
  proof (cases "bucket_at t (IndexOf t key)")
    case (Inl e)
    then show ?thesis using Suc.prems by (subst HT_Insert.simps) simp
  next
    case (Inr ab)
    obtain a b where ab: "ab = (a, b)" by (cases ab)
    show ?thesis
    proof (cases "Bucket_Insert b key v")
      case None
      then have "HT_Insert_passes n (split_once t a b) key v = Some r"
        using Suc.prems Inr ab by simp
      from Suc.IH [OF this] show ?thesis
        using Inr ab None by (subst HT_Insert.simps) simp
    next
      case (Some b')
      then show ?thesis using Suc.prems Inr ab by (subst HT_Insert.simps) simp
    qed
  qed
qed

lemma HT_Insert_needs_passes:
  assumes "HT_Insert t key v = Some r"
  shows "\<exists>n. HT_Insert_passes n t key v = Some r"
proof (rule HT_Insert.raw_induct
    [where P = "\<lambda>t key v r. \<exists>n. HT_Insert_passes n t key v = Some r", OF _ assms])
  fix ins :: "(('a, 'b) ExtendibleHashTable \<Rightarrow> 'a \<Rightarrow> 'b \<Rightarrow> (failure + ('a, 'b) ExtendibleHashTable) option)"
  fix t key v r
  assume IH: "\<And>t key v r. ins t key v = Some r \<Longrightarrow> \<exists>n. HT_Insert_passes n t key v = Some r"
  assume body: "(case bucket_at t (IndexOf t key) of Inl e \<Rightarrow> Some (Inl e)
      | Inr (a, b) \<Rightarrow>
          case Bucket_Insert b key v of
          None \<Rightarrow> ins (split_once t a b) key v
          | Some b' \<Rightarrow> Some (Inr (t\<lparr>heap := (heap t)[a := b']\<rparr>))) = Some r"
  show "\<exists>n. HT_Insert_passes n t key v = Some r"
  proof (cases "bucket_at t (IndexOf t key)")
    case (Inl e)
    with body have "HT_Insert_passes (Suc 0) t key v = Some r" by simp
    then show ?thesis ..
  next
    case (Inr ab)
    obtain a b where ab: "ab = (a, b)" by (cases ab)
    show ?thesis
    proof (cases "Bucket_Insert b key v")
      case None
      with body Inr ab have "ins (split_once t a b) key v = Some r" by simp
      from IH [OF this] obtain n where "HT_Insert_passes n (split_once t a b) key v = Some r" ..
      then have "HT_Insert_passes (Suc n) t key v = Some r" using Inr ab None by simp
      then show ?thesis ..
    next
      case (Some b')
      with body Inr ab have "HT_Insert_passes (Suc 0) t key v = Some r" by simp
      then show ?thesis ..
    qed
  qed
qed

lemma S1_two: "insert_all (ExtendibleHashTable_new hash_int 2) [(1, ''a''), (2, ''b'')] = Some (Inr S1_full)"
  by (simp add: HT_Insert.simps ExtendibleHashTable_new_def S1_full_def bucket_at_def IndexOf_def
      Bucket_Insert_def IsFull_def hash_small)

lemma S1_split: "split_once S1_full 0 \<lparr>size_bkt = 2, depth = 0, items = [(1, ''a''), (2, ''b'')]\<rparr>
   = S1_mid"
  by (simp add: split_once_def S1_full_def S1_mid_def double_directory_def RedistributeBucket_def
       hash_small Let_def)

lemma S1_third: "HT_Insert S1_full 3 ''c'' = Some (Inr S1_table)"
proof -
  let ?b0 = "\<lparr>size_bkt = 2, depth = 0, items = [(1::int, ''a''), (2, ''b'')]\<rparr>"
  let ?b1 = "\<lparr>size_bkt = 2, depth = 1, items = [(1::int, ''a'')]\<rparr>"
  have 1: "bucket_at S1_full (IndexOf S1_full 3) = Inr (0, ?b0)"
    by (simp add: S1_full_def bucket_at_def IndexOf_def hash_small)
  have 2: "Bucket_Insert ?b0 3 ''c'' = None"
    by (simp add: Bucket_Insert_def IsFull_def)
  have 3: "bucket_at S1_mid (IndexOf S1_mid 3) = Inr (1, ?b1)"
    by (simp add: S1_mid_def bucket_at_def IndexOf_def hash_small)
  have 4: "Bucket_Insert ?b1 3 ''c'' = Some \<lparr>size_bkt = 2, depth = 1, items = [(1, ''a''), (3, ''c'')]\<rparr>"
    by (simp add: Bucket_Insert_def IsFull_def)
  have "HT_Insert S1_full 3 ''c'' = HT_Insert S1_mid 3 ''c''"
    using HT_Insert_retry [OF 1 2] by (simp add: S1_split)
  also have "\<dots> = Some (Inr (S1_mid\<lparr>heap := (heap S1_mid)[1 := \<lparr>size_bkt = 2, depth = 1, items = [(1, ''a''), (3, ''c'')]\<rparr>]\<rparr>))"
    by (rule HT_Insert_done [OF 3 4])
  also have "\<dots> = Some (Inr S1_table)"
    by (simp add: S1_mid_def S1_table_def)
  finally show ?thesis .
qed

lemma S1_all: "insert_all (ExtendibleHashTable_new hash_int 2) [(1, ''a''), (2, ''b''), (3, ''c'')] = Some (Inr S1_table)"
proof -
  have "insert_all (ExtendibleHashTable_new hash_int 2) ([(1, ''a''), (2, ''b'')] @ [(3, ''c'')])
      = insert_all S1_full [(3, ''c'')]"
    using S1_two
    by (simp add: HT_Insert.simps ExtendibleHashTable_new_def S1_full_def bucket_at_def IndexOf_def
      Bucket_Insert_def IsFull_def hash_small)
  then show ?thesis by (simp add: S1_third)
qed

lemma repoint_length: "length (repoint old new m i ds) = length ds"
  by (induction ds arbitrary: i) auto

lemma repoint_nth:
  "j < length ds \<Longrightarrow>
   repoint old new m i ds ! j = (if ds ! j = old \<and> (i + j) AND m \<noteq> 0 then new else ds ! j)"
proof (induction ds arbitrary: i j)
  case Nil
  then show ?case by simp
next
  case (Cons d ds)
  then show ?case by (cases j) auto
qed

lemma Bucket_overwrite_Some:
  "Bucket_overwrite its key v = Some its' \<Longrightarrow> Bucket_Find its' key = Some v"
  by (induction its arbitrary: its') (auto split: if_splits option.splits)

lemma Bucket_overwrite_None:
  "Bucket_overwrite its key v = None \<Longrightarrow> Bucket_Find (its @ [(key, v)]) key = Some v"
  by (induction its) (auto split: if_splits option.splits)

lemma Bucket_Insert_found:
  "Bucket_Insert b key v = Some b' \<Longrightarrow> Bucket_Find (items b') key = Some v"
  by (auto simp: Bucket_Insert_def Bucket_overwrite_Some Bucket_overwrite_None
      split: option.splits if_splits)

lemma HT_Insert_found:
  assumes "HT_Insert t key v = Some r"
  shows "\<forall>t'. r = Inr t' \<longrightarrow> HT_Find t' key = Inr (Some v)"
proof (rule HT_Insert.raw_induct
    [where P = "\<lambda>t key v r. \<forall>t'. r = Inr t' \<longrightarrow> HT_Find t' key = Inr (Some v)", OF _ assms])
  fix ins :: "(('a, 'b) ExtendibleHashTable \<Rightarrow> 'a \<Rightarrow> 'b \<Rightarrow> (failure + ('a, 'b) ExtendibleHashTable) option)"
  fix t key v r
  assume IH: "\<And>t key v r. ins t key v = Some r
      \<Longrightarrow> \<forall>t'. r = Inr t' \<longrightarrow> HT_Find t' key = Inr (Some v)"
  assume body: "(case bucket_at t (IndexOf t key) of Inl e \<Rightarrow> Some (Inl e)
      | Inr (a, b) \<Rightarrow>
          case Bucket_Insert b key v of
          None \<Rightarrow> ins (split_once t a b) key v
          | Some b' \<Rightarrow> Some (Inr (t\<lparr>heap := (heap t)[a := b']\<rparr>))) = Some r"
  show "\<forall>t'. r = Inr t' \<longrightarrow> HT_Find t' key = Inr (Some v)"
  proof (cases "bucket_at t (IndexOf t key)")
    case (Inl e)
    with body show ?thesis by auto
  next
    case (Inr ab)
    obtain a b where ab: "ab = (a, b)" by (cases ab)
    from Inr ab have a: "IndexOf t key < length (dir t)" "a = dir t ! IndexOf t key"
      "a < length (heap t)"
      by (auto simp: bucket_at_def split: if_splits)
    show ?thesis
    proof (cases "Bucket_Insert b key v")
      case None
      with body Inr ab have "ins (split_once t a b) key v = Some r" by simp
      from IH [OF this] show ?thesis .
    next
      case (Some b')
      with body Inr ab have r: "r = Inr (t\<lparr>heap := (heap t)[a := b']\<rparr>)" by simp
      let ?t' = "t\<lparr>heap := (heap t)[a := b']\<rparr>"
      have "IndexOf ?t' key = IndexOf t key" by (simp add: IndexOf_def)
      then have "bucket_at ?t' (IndexOf ?t' key) = Inr (a, b')"
        using a by (simp add: bucket_at_def)
      then have "HT_Find ?t' key = Inr (Some v)"
        using Bucket_Insert_found [OF Some] by (simp add: HT_Find_def)
      then show ?thesis using r by simp
    qed
  qed
qed


lemma dir_doubled_nth:
  "i < 2 * length ds \<Longrightarrow> (ds @ ds) ! i = ds ! (i mod length ds)"
  by (cases "i < length ds") (simp_all add: nth_append le_mod_geq)

lemma split_once_general:
  assumes b: "bucket_at t (IndexOf t key) = Inr (a, b)"
  shows "global_depth (split_once t a b) =
           (if depth b = global_depth t then global_depth t + 1 else global_depth t) \<and>
         length (dir (split_once t a b)) =
           (if depth b = global_depth t then 2 * length (dir t) else length (dir t)) \<and>
         (\<forall>i < length (dir (split_once t a b)).
            dir (split_once t a b) ! i =
              (if dir t ! (i mod length (dir t)) = a \<and> i AND push_bit (depth b) 1 \<noteq> 0
               then length (heap t) else dir t ! (i mod length (dir t)))) \<and>
         length (heap (split_once t a b)) = length (heap t) + 1 \<and>
         heap (split_once t a b) ! a =
           b\<lparr>depth := depth b + 1,
             items := filter (\<lambda>item. \<not> hasher t (fst item) AND push_bit (depth b) 1 \<noteq> 0) (items b)\<rparr> \<and>
         heap (split_once t a b) ! length (heap t) =
           \<lparr>size_bkt = bucket_size t, depth = depth b + 1,
            items = filter (\<lambda>item. hasher t (fst item) AND push_bit (depth b) 1 \<noteq> 0) (items b)\<rparr> \<and>
         (\<forall>a' < length (heap t). a' \<noteq> a \<longrightarrow> heap (split_once t a b) ! a' = heap t ! a') \<and>
         num_buckets (split_once t a b) = num_buckets t + 1"
proof -
  from b have a: "a < length (heap t)" "b = heap t ! a"
    by (auto simp: bucket_at_def split: if_splits)
  have 1: "global_depth (split_once t a b) =
           (if depth b = global_depth t then global_depth t + 1 else global_depth t)"
    by (simp add: split_once_def RedistributeBucket_def double_directory_def Let_def)
  have 2: "length (dir (split_once t a b)) =
           (if depth b = global_depth t then 2 * length (dir t) else length (dir t))"
    by (simp add: split_once_def RedistributeBucket_def double_directory_def Let_def repoint_length)
  have 3: "\<forall>i < length (dir (split_once t a b)).
            dir (split_once t a b) ! i =
              (if dir t ! (i mod length (dir t)) = a \<and> i AND push_bit (depth b) 1 \<noteq> 0
               then length (heap t) else dir t ! (i mod length (dir t)))"
    using a by (simp add: split_once_def RedistributeBucket_def double_directory_def Let_def
        repoint_length repoint_nth dir_doubled_nth)
  have 4: "length (heap (split_once t a b)) = length (heap t) + 1"
    by (simp add: split_once_def RedistributeBucket_def double_directory_def Let_def)
  have 5: "heap (split_once t a b) ! a =
           b\<lparr>depth := depth b + 1,
             items := filter (\<lambda>item. \<not> hasher t (fst item) AND push_bit (depth b) 1 \<noteq> 0) (items b)\<rparr>"
    using a by (simp add: split_once_def RedistributeBucket_def double_directory_def Let_def nth_append)
  have 6: "heap (split_once t a b) ! length (heap t) =
           \<lparr>size_bkt = bucket_size t, depth = depth b + 1,
            items = filter (\<lambda>item. hasher t (fst item) AND push_bit (depth b) 1 \<noteq> 0) (items b)\<rparr>"
    using a by (simp add: split_once_def RedistributeBucket_def double_directory_def Let_def nth_append)
  have 7: "\<forall>a' < length (heap t). a' \<noteq> a \<longrightarrow> heap (split_once t a b) ! a' = heap t ! a'"
    by (simp add: split_once_def RedistributeBucket_def double_directory_def Let_def nth_append)
  have 8: "num_buckets (split_once t a b) = num_buckets t + 1"
    by (simp add: split_once_def RedistributeBucket_def double_directory_def Let_def)
  from 1 2 3 4 5 6 7 8 show ?thesis by blast
qed

text \<open>
  Claim C5. When \<open>Insert\<close> meets a bucket \<open>b\<close> (at address \<open>a\<close>) that refuses the pair
  (it is full and does not hold the key), it goes on as \<open>Insert\<close> on the table after
  one split. In that table: the global depth is one more and the directory twice as
  long, its upper half a copy of the lower, exactly when the local depth of \<open>b\<close> was
  the global depth; the local depth of \<open>b\<close> is one more; a new bucket of the same depth
  stands at the next free address; the items of \<open>b\<close> whose hash has the new bit
  (\<open>1 << old local depth\<close>) set are in the new bucket and the others stay; exactly the
  directory slots that pointed to \<open>b\<close> and whose index has that bit set point to the new
  bucket; the bucket count is one more. When the bucket accepts the pair, \<open>Insert\<close>
  returns the table with the pair stored in that bucket. \<open>Insert\<close> returns a result
  exactly when some finite number of passes through the loop produces it, that is, when
  after finitely many refusals, each followed by a split, the bucket of the key accepts
  the pair; and whenever \<open>Insert\<close> returns a table, the key is found there with the
  value. With bucket size 2 and \<open>hash(x) = x\<close>, the inserts of (1,a), (2,b),
  (3,c) return, and then the global depth is 1, there are 2 buckets, slots 0 and 1 have
  local depth 1, bucket 0 holds key 2 and bucket 1 holds keys 1 and 3.
\<close>

theorem HT_Insert_splits_full_bucket:
  "(bucket_at t (IndexOf t key) = Inr (a, b) \<and> Bucket_Insert b key v = None \<longrightarrow>
        HT_Insert t key v = HT_Insert (split_once t a b) key v \<and>
        global_depth (split_once t a b) =
           (if depth b = global_depth t then global_depth t + 1 else global_depth t) \<and>
        length (dir (split_once t a b)) =
           (if depth b = global_depth t then 2 * length (dir t) else length (dir t)) \<and>
        (\<forall>i < length (dir (split_once t a b)).
            dir (split_once t a b) ! i =
              (if dir t ! (i mod length (dir t)) = a \<and> i AND push_bit (depth b) 1 \<noteq> 0
               then length (heap t) else dir t ! (i mod length (dir t)))) \<and>
        length (heap (split_once t a b)) = length (heap t) + 1 \<and>
        heap (split_once t a b) ! a =
           b\<lparr>depth := depth b + 1,
             items := filter (\<lambda>item. \<not> hasher t (fst item) AND push_bit (depth b) 1 \<noteq> 0) (items b)\<rparr> \<and>
        heap (split_once t a b) ! length (heap t) =
           \<lparr>size_bkt = bucket_size t, depth = depth b + 1,
            items = filter (\<lambda>item. hasher t (fst item) AND push_bit (depth b) 1 \<noteq> 0) (items b)\<rparr> \<and>
        (\<forall>a' < length (heap t). a' \<noteq> a \<longrightarrow> heap (split_once t a b) ! a' = heap t ! a') \<and>
        num_buckets (split_once t a b) = num_buckets t + 1) \<and>
   (bucket_at t (IndexOf t key) = Inr (a, b) \<and> Bucket_Insert b key v = Some b' \<longrightarrow>
        HT_Insert t key v = Some (Inr (t\<lparr>heap := (heap t)[a := b']\<rparr>))) \<and>
   (HT_Insert t key v = Some r) = (\<exists>n. HT_Insert_passes n t key v = Some r) \<and>
   (HT_Insert t key v = Some (Inr t') \<longrightarrow> HT_Find t' key = Inr (Some v)) \<and>
   (\<exists>s. insert_all (ExtendibleHashTable_new hash_int 2) [(1, ''a''), (2, ''b''), (3, ''c'')]
          = Some (Inr s) \<and>
        GetGlobalDepth s = 1 \<and> GetNumBuckets s = 2 \<and>
        GetLocalDepth s 0 = Inr 1 \<and> GetLocalDepth s 1 = Inr 1 \<and>
        map_sum id (\<lambda>ab. map fst (items (snd ab))) (bucket_at s 0) = Inr [2] \<and>
        map_sum id (\<lambda>ab. map fst (items (snd ab))) (bucket_at s 1) = Inr [1, 3])"
proof -
  have A: "bucket_at t (IndexOf t key) = Inr (a, b) \<and> Bucket_Insert b key v = None \<longrightarrow>
        HT_Insert t key v = HT_Insert (split_once t a b) key v \<and>
        global_depth (split_once t a b) =
           (if depth b = global_depth t then global_depth t + 1 else global_depth t) \<and>
        length (dir (split_once t a b)) =
           (if depth b = global_depth t then 2 * length (dir t) else length (dir t)) \<and>
        (\<forall>i < length (dir (split_once t a b)).
            dir (split_once t a b) ! i =
              (if dir t ! (i mod length (dir t)) = a \<and> i AND push_bit (depth b) 1 \<noteq> 0
               then length (heap t) else dir t ! (i mod length (dir t)))) \<and>
        length (heap (split_once t a b)) = length (heap t) + 1 \<and>
        heap (split_once t a b) ! a =
           b\<lparr>depth := depth b + 1,
             items := filter (\<lambda>item. \<not> hasher t (fst item) AND push_bit (depth b) 1 \<noteq> 0) (items b)\<rparr> \<and>
        heap (split_once t a b) ! length (heap t) =
           \<lparr>size_bkt = bucket_size t, depth = depth b + 1,
            items = filter (\<lambda>item. hasher t (fst item) AND push_bit (depth b) 1 \<noteq> 0) (items b)\<rparr> \<and>
        (\<forall>a' < length (heap t). a' \<noteq> a \<longrightarrow> heap (split_once t a b) ! a' = heap t ! a') \<and>
        num_buckets (split_once t a b) = num_buckets t + 1"
  proof (rule impI)
    assume h: "bucket_at t (IndexOf t key) = Inr (a, b) \<and> Bucket_Insert b key v = None"
    then have 1: "bucket_at t (IndexOf t key) = Inr (a, b)"
      and 2: "Bucket_Insert b key v = None" by simp_all
    show "HT_Insert t key v = HT_Insert (split_once t a b) key v \<and>
        global_depth (split_once t a b) =
           (if depth b = global_depth t then global_depth t + 1 else global_depth t) \<and>
        length (dir (split_once t a b)) =
           (if depth b = global_depth t then 2 * length (dir t) else length (dir t)) \<and>
        (\<forall>i < length (dir (split_once t a b)).
            dir (split_once t a b) ! i =
              (if dir t ! (i mod length (dir t)) = a \<and> i AND push_bit (depth b) 1 \<noteq> 0
               then length (heap t) else dir t ! (i mod length (dir t)))) \<and>
        length (heap (split_once t a b)) = length (heap t) + 1 \<and>
        heap (split_once t a b) ! a =
           b\<lparr>depth := depth b + 1,
             items := filter (\<lambda>item. \<not> hasher t (fst item) AND push_bit (depth b) 1 \<noteq> 0) (items b)\<rparr> \<and>
        heap (split_once t a b) ! length (heap t) =
           \<lparr>size_bkt = bucket_size t, depth = depth b + 1,
            items = filter (\<lambda>item. hasher t (fst item) AND push_bit (depth b) 1 \<noteq> 0) (items b)\<rparr> \<and>
        (\<forall>a' < length (heap t). a' \<noteq> a \<longrightarrow> heap (split_once t a b) ! a' = heap t ! a') \<and>
        num_buckets (split_once t a b) = num_buckets t + 1"
      by (rule conjI [OF HT_Insert_retry [OF 1 2] split_once_general [OF 1]])
  qed
  have D: "bucket_at t (IndexOf t key) = Inr (a, b) \<and> Bucket_Insert b key v = Some b' \<longrightarrow>
        HT_Insert t key v = Some (Inr (t\<lparr>heap := (heap t)[a := b']\<rparr>))"
  proof (rule impI)
    assume h: "bucket_at t (IndexOf t key) = Inr (a, b) \<and> Bucket_Insert b key v = Some b'"
    show "HT_Insert t key v = Some (Inr (t\<lparr>heap := (heap t)[a := b']\<rparr>))"
      by (rule HT_Insert_done [OF conjunct1 [OF h] conjunct2 [OF h]])
  qed
  have E: "(HT_Insert t key v = Some r) = (\<exists>n. HT_Insert_passes n t key v = Some r)"
  proof (rule iffI)
    assume "HT_Insert t key v = Some r"
    then show "\<exists>n. HT_Insert_passes n t key v = Some r" by (rule HT_Insert_needs_passes)
  next
    assume "\<exists>n. HT_Insert_passes n t key v = Some r"
    then obtain n where "HT_Insert_passes n t key v = Some r" ..
    then show "HT_Insert t key v = Some r" by (rule HT_Insert_passes_returns)
  qed
  have B: "HT_Insert t key v = Some (Inr t') \<longrightarrow> HT_Find t' key = Inr (Some v)"
  proof (rule impI)
    assume h: "HT_Insert t key v = Some (Inr t')"
    from HT_Insert_found [OF h] show "HT_Find t' key = Inr (Some v)" by simp
  qed
  have "GetGlobalDepth S1_table = 1 \<and> GetNumBuckets S1_table = 2 \<and>
        GetLocalDepth S1_table 0 = Inr 1 \<and> GetLocalDepth S1_table 1 = Inr 1 \<and>
        map_sum id (\<lambda>ab. map fst (items (snd ab))) (bucket_at S1_table 0) = Inr [2] \<and>
        map_sum id (\<lambda>ab. map fst (items (snd ab))) (bucket_at S1_table 1) = Inr [1, 3]"
    by (simp add: S1_table_def GetGlobalDepth_def GetNumBuckets_def GetLocalDepth_def bucket_at_def)
  then have C: "\<exists>s. insert_all (ExtendibleHashTable_new hash_int 2) [(1, ''a''), (2, ''b''), (3, ''c'')]
          = Some (Inr s) \<and>
        GetGlobalDepth s = 1 \<and> GetNumBuckets s = 2 \<and>
        GetLocalDepth s 0 = Inr 1 \<and> GetLocalDepth s 1 = Inr 1 \<and>
        map_sum id (\<lambda>ab. map fst (items (snd ab))) (bucket_at s 0) = Inr [2] \<and>
        map_sum id (\<lambda>ab. map fst (items (snd ab))) (bucket_at s 1) = Inr [1, 3]"
    by (intro exI [of _ S1_table] conjI S1_all) simp_all
  show ?thesis by (rule conjI [OF A conjI [OF D conjI [OF E conjI [OF B C]]]])
qed

theorem HT_Insert_splits_full_bucket_witness:
  "bucket_at S1_full (IndexOf S1_full 3) =
      Inr (0, \<lparr>size_bkt = 2, depth = 0, items = [(1, ''a''), (2, ''b'')]\<rparr>) \<and>
   Bucket_Insert \<lparr>size_bkt = 2, depth = 0, items = [(1 :: int, ''a''), (2, ''b'')]\<rparr> 3 ''c'' = None \<and>
   HT_Insert S1_full 3 ''c'' = Some (Inr S1_table) \<and>
   global_depth (split_once S1_full 0 \<lparr>size_bkt = 2, depth = 0, items = [(1, ''a''), (2, ''b'')]\<rparr>) = 1 \<and>
   num_buckets (split_once S1_full 0 \<lparr>size_bkt = 2, depth = 0, items = [(1, ''a''), (2, ''b'')]\<rparr>) = 2 \<and>
   HT_Find S1_table 3 = Inr (Some ''c'') \<and>
   bucket_at S1_mid (IndexOf S1_mid 3) = Inr (1, \<lparr>size_bkt = 2, depth = 1, items = [(1, ''a'')]\<rparr>) \<and>
   Bucket_Insert \<lparr>size_bkt = 2, depth = 1, items = [(1 :: int, ''a'')]\<rparr> 3 ''c''
     = Some \<lparr>size_bkt = 2, depth = 1, items = [(1, ''a''), (3, ''c'')]\<rparr> \<and>
   HT_Insert S1_mid 3 ''c'' = Some (Inr S1_table) \<and>
   HT_Insert_passes 1 S1_full 3 ''c'' = None \<and>
   HT_Insert_passes 2 S1_full 3 ''c'' = Some (Inr S1_table) \<and>
   (\<exists>n. HT_Insert_passes n S1_full 3 ''c'' = Some (Inr S1_table))"
proof -
  let ?b0 = "\<lparr>size_bkt = 2, depth = 0, items = [(1::int, ''a''), (2, ''b'')]\<rparr>"
  let ?b1 = "\<lparr>size_bkt = 2, depth = 1, items = [(1::int, ''a'')]\<rparr>"
  let ?b2 = "\<lparr>size_bkt = 2, depth = 1, items = [(1::int, ''a''), (3, ''c'')]\<rparr>"
  have 1: "bucket_at S1_full (IndexOf S1_full 3) = Inr (0, ?b0)"
    by (simp add: S1_full_def bucket_at_def IndexOf_def hash_small)
  have 2: "Bucket_Insert ?b0 3 ''c'' = None"
    by (simp add: Bucket_Insert_def IsFull_def)
  have g: "depth ?b0 = global_depth S1_full" "global_depth S1_full = 0" "num_buckets S1_full = 1"
    by (simp_all add: S1_full_def)
  note T = HT_Insert_splits_full_bucket
    [where t = S1_full and key = 3 and v = "''c''" and a = 0 and b = "?b0" and t' = S1_table
       and r = "Inr S1_table"]
  note G = T [THEN conjunct1, THEN mp, OF conjI [OF 1 2]]
  have 3: "global_depth (split_once S1_full 0 ?b0) = 1"
    using G [THEN conjunct2, THEN conjunct1] g by simp
  have 5: "num_buckets (split_once S1_full 0 ?b0) = 2"
    using G [THEN conjunct2, THEN conjunct2, THEN conjunct2, THEN conjunct2, THEN conjunct2,
        THEN conjunct2, THEN conjunct2, THEN conjunct2] g by simp
  have 4: "HT_Find S1_table 3 = Inr (Some ''c'')"
    by (rule T [THEN conjunct2, THEN conjunct2, THEN conjunct2, THEN conjunct1, THEN mp,
          OF S1_third])
  have 6: "bucket_at S1_mid (IndexOf S1_mid 3) = Inr (1, ?b1)"
    by (simp add: S1_mid_def bucket_at_def IndexOf_def hash_small)
  have 7: "Bucket_Insert ?b1 3 ''c'' = Some ?b2"
    by (simp add: Bucket_Insert_def IsFull_def)
  note U = HT_Insert_splits_full_bucket
    [where t = S1_mid and key = 3 and v = "''c''" and a = 1 and b = "?b1" and b' = "?b2"]
  have "HT_Insert S1_mid 3 ''c'' = Some (Inr (S1_mid\<lparr>heap := (heap S1_mid)[1 := ?b2]\<rparr>))"
    by (rule U [THEN conjunct2, THEN conjunct1, THEN mp, OF conjI [OF 6 7]])
  then have 8: "HT_Insert S1_mid 3 ''c'' = Some (Inr S1_table)"
    by (simp add: S1_mid_def S1_table_def)
  have 9: "HT_Insert_passes 1 S1_full 3 ''c'' = None"
    using 1 2 by simp
  have "HT_Insert_passes (Suc (Suc 0)) S1_full 3 ''c''
      = Some (Inr (S1_mid\<lparr>heap := (heap S1_mid)[1 := ?b2]\<rparr>))"
    using 1 2 6 7 by (simp add: S1_split)
  then have 10: "HT_Insert_passes 2 S1_full 3 ''c'' = Some (Inr S1_table)"
    by (simp add: S1_mid_def S1_table_def numeral_2_eq_2)
  have 11: "\<exists>n. HT_Insert_passes n S1_full 3 ''c'' = Some (Inr S1_table)"
    using T [THEN conjunct2, THEN conjunct2, THEN conjunct1] S1_third by simp
  show ?thesis
    by (intro conjI 1 2 S1_third 3 5 4 6 7 8 9 10 11)
qed

subsection \<open>Buffer pool manager\<close>

lemma ex_find: "HT_Find (page_table bpm_example) 5 = Inr (Some 0)"
  "HT_Find (page_table bpm_example) 6 = Inr (Some 1)"
  "HT_Find (page_table bpm_example) 9 = Inr None"
  by (simp_all add: bpm_example_def HT_Find_def bucket_at_def IndexOf_def hash_int_def)

text \<open>
  Claim C7. In a pool where the page table answers the lookup of \<open>page_id\<close> and a
  resident page sits in a frame of the pool with a non-negative pin count that the
  replacer tracks: \<open>UnpinPage\<close> returns false exactly when the page is not resident or
  the pin count of its frame is 0, and then the pool is unchanged; otherwise it returns
  true, the pin count of the frame is one less, its dirty bit is the old bit or
  \<open>is_dirty\<close>, no other frame, nor the page table, the free list or the disk changes,
  the replacer has the frame evictable when the pin count reached 0 and is unchanged
  otherwise.
\<close>

theorem UnpinPgImp_spec:
  assumes find: "HT_Find (page_table bpm) pid = Inr fo"
    and frame: "\<forall>f. fo = Some f \<longrightarrow> 0 \<le> f \<and> nat f < length (pages bpm) \<and>
                  0 \<le> pin_count (pages bpm ! nat f) \<and>
                  valid_frame (replacer bpm) f \<and> tracked (replacer bpm) f"
  shows "\<exists>bpm' ok. UnpinPgImp bpm pid dirty = Inr (bpm', ok) \<and>
     (ok = False \<longleftrightarrow> fo = None \<or> (\<exists>f. fo = Some f \<and> pin_count (pages bpm ! nat f) = 0)) \<and>
     (\<not> ok \<longrightarrow> bpm' = bpm) \<and>
     (ok \<longrightarrow> (\<exists>f. fo = Some f \<and>
        pin_count (pages bpm' ! nat f) = pin_count (pages bpm ! nat f) - 1 \<and>
        is_dirty (pages bpm' ! nat f) = (is_dirty (pages bpm ! nat f) \<or> dirty) \<and>
        page_id (pages bpm' ! nat f) = page_id (pages bpm ! nat f) \<and>
        data (pages bpm' ! nat f) = data (pages bpm ! nat f) \<and>
        length (pages bpm') = length (pages bpm) \<and>
        (\<forall>i. i \<noteq> nat f \<longrightarrow> pages bpm' ! i = pages bpm ! i) \<and>
        page_table bpm' = page_table bpm \<and> free_list bpm' = free_list bpm \<and>
        next_page_id_ctr bpm' = next_page_id_ctr bpm \<and> disk_writes bpm' = disk_writes bpm \<and>
        (pin_count (pages bpm' ! nat f) = 0 \<longrightarrow>
           SetEvictable (replacer bpm) f True = Inr (replacer bpm') \<and>
           is_evictable (replacer bpm') f) \<and>
        (pin_count (pages bpm' ! nat f) \<noteq> 0 \<longrightarrow> replacer bpm' = replacer bpm)))"
proof (cases fo)
  case None
  then show ?thesis using find by (auto simp: UnpinPgImp_def)
next
  case (Some f)
  with frame have f: "0 \<le> f" "nat f < length (pages bpm)" "0 \<le> pin_count (pages bpm ! nat f)"
    "valid_frame (replacer bpm) f" "tracked (replacer bpm) f" by auto
  have fa: "frame_at bpm f = Inr (pages bpm ! nat f)" using f by (simp add: frame_at_def)
  show ?thesis
  proof (cases "pin_count (pages bpm ! nat f) = 0")
    case True
    then show ?thesis using find Some fa by (auto simp: UnpinPgImp_def)
  next
    case False
    with f(3) have pos: "0 < pin_count (pages bpm ! nat f)" by simp
    have "\<exists>r'. SetEvictable (replacer bpm) f True = Inr r' \<and> is_evictable r' f"
      using f(4,5) by (cases "evictable (replacer bpm) f = Some True")
        (simp_all add: SetEvictable_def is_evictable_def)
    then obtain r' where r': "SetEvictable (replacer bpm) f True = Inr r'" "is_evictable r' f"
      by blast
    show ?thesis
      using find Some fa pos f(2) r'
      by (auto simp: UnpinPgImp_def Let_def)
  qed
qed

theorem UnpinPgImp_spec_witness:
  "(\<exists>bpm'. UnpinPgImp bpm_example 5 True = Inr (bpm', True) \<and>
       pin_count (pages bpm' ! 0) = 0 \<and> is_dirty (pages bpm' ! 0) \<and> is_evictable (replacer bpm') 0) \<and>
   UnpinPgImp bpm_example 6 False = Inr (bpm_example, False) \<and>
   UnpinPgImp bpm_example 9 False = Inr (bpm_example, False)"
proof -
  have p: "pages bpm_example ! 0 = \<lparr>page_id = 5, pin_count = 1, is_dirty = False, data = [1, 2]\<rparr>"
    "pages bpm_example ! 1 = \<lparr>page_id = 6, pin_count = 0, is_dirty = True, data = [3]\<rparr>"
    "length (pages bpm_example) = 3"
    by (simp_all add: bpm_example_def)
  have r: "valid_frame (replacer bpm_example) 0" "tracked (replacer bpm_example) 0"
    "valid_frame (replacer bpm_example) 1" "tracked (replacer bpm_example) 1"
    by (simp_all add: bpm_example_def valid_frame_def tracked_def)
  have a: "\<forall>f. Some (0::int) = Some f \<longrightarrow> 0 \<le> f \<and> nat f < length (pages bpm_example) \<and>
                  0 \<le> pin_count (pages bpm_example ! nat f) \<and>
                  valid_frame (replacer bpm_example) f \<and> tracked (replacer bpm_example) f"
    using p r by simp
  have b: "\<forall>f. Some (1::int) = Some f \<longrightarrow> 0 \<le> f \<and> nat f < length (pages bpm_example) \<and>
                  0 \<le> pin_count (pages bpm_example ! nat f) \<and>
                  valid_frame (replacer bpm_example) f \<and> tracked (replacer bpm_example) f"
    using p r by simp
  have c: "\<forall>f. (None :: int option) = Some f \<longrightarrow> 0 \<le> f \<and> nat f < length (pages bpm_example) \<and>
                  0 \<le> pin_count (pages bpm_example ! nat f) \<and>
                  valid_frame (replacer bpm_example) f \<and> tracked (replacer bpm_example) f"
    by simp
  from UnpinPgImp_spec [OF ex_find(1) a, of True] p
  have 1: "\<exists>bpm'. UnpinPgImp bpm_example 5 True = Inr (bpm', True) \<and>
       pin_count (pages bpm' ! 0) = 0 \<and> is_dirty (pages bpm' ! 0) \<and> is_evictable (replacer bpm') 0"
    by auto
  from UnpinPgImp_spec [OF ex_find(2) b, of False] p
  have 2: "UnpinPgImp bpm_example 6 False = Inr (bpm_example, False)" by auto
  from UnpinPgImp_spec [OF ex_find(3) c, of False]
  have 3: "UnpinPgImp bpm_example 9 False = Inr (bpm_example, False)" by auto
  from 1 2 3 show ?thesis by blast
qed


text \<open>
  Claim C9. In a pool where the page table answers the lookup of \<open>page_id\<close> and a
  resident page sits in a frame of the pool: \<open>FlushPage\<close> returns false exactly when the
  id is \<open>INVALID_PAGE_ID\<close> or the page is not resident, and then the pool is unchanged;
  otherwise it returns true after one write of the frame's bytes, whatever the dirty
  bit was, the dirty bit is clear, and the pin count and the replacer are unchanged.
  \<open>FlushAllPages\<close> writes every frame that holds a valid page, in frame order and
  whatever its dirty bit, clears the dirty bit of these frames and changes nothing else.
\<close>

lemma flush_frames_length: "length (fst (flush_frames ps)) = length ps"
  by (induction ps) (auto simp: Let_def split: prod.splits)

lemma flush_frames_nth:
  "i < length ps \<Longrightarrow>
   fst (flush_frames ps) ! i =
     (if page_id (ps ! i) \<noteq> INVALID_PAGE_ID then (ps ! i)\<lparr>is_dirty := False\<rparr> else ps ! i)"
proof (induction ps arbitrary: i)
  case Nil
  then show ?case by simp
next
  case (Cons p ps)
  then show ?case by (cases i) (auto simp: Let_def split: prod.splits)
qed

lemma flush_frames_writes:
  "snd (flush_frames ps) =
     map (\<lambda>p. (page_id p, data p)) (filter (\<lambda>p. page_id p \<noteq> INVALID_PAGE_ID) ps)"
  by (induction ps) (auto simp: Let_def split: prod.splits)

lemma FlushPgImp_general:
  assumes find: "HT_Find (page_table bpm) pid = Inr fo"
    and frame: "\<forall>f. fo = Some f \<longrightarrow> 0 \<le> f \<and> nat f < length (pages bpm)"
  shows "\<exists>bpm' ok. FlushPgImp bpm pid = Inr (bpm', ok) \<and>
       (ok = False \<longleftrightarrow> pid = INVALID_PAGE_ID \<or> fo = None) \<and>
       (\<not> ok \<longrightarrow> bpm' = bpm) \<and>
       (ok \<longrightarrow> (\<exists>f. fo = Some f \<and>
          disk_writes bpm' = disk_writes bpm @ [(pid, data (pages bpm ! nat f))] \<and>
          pages bpm' = (pages bpm)[nat f := (pages bpm ! nat f)\<lparr>is_dirty := False\<rparr>] \<and>
          \<not> is_dirty (pages bpm' ! nat f) \<and>
          pin_count (pages bpm' ! nat f) = pin_count (pages bpm ! nat f) \<and>
          replacer bpm' = replacer bpm \<and> page_table bpm' = page_table bpm \<and>
          free_list bpm' = free_list bpm \<and> next_page_id_ctr bpm' = next_page_id_ctr bpm))"
proof (cases "pid = INVALID_PAGE_ID")
  case True
  then show ?thesis by (auto simp: FlushPgImp_def)
next
  case False
  show ?thesis
  proof (cases fo)
    case None
    then show ?thesis using find False by (auto simp: FlushPgImp_def)
  next
    case (Some f)
    with frame have "frame_at bpm f = Inr (pages bpm ! nat f)" "nat f < length (pages bpm)"
      by (auto simp: frame_at_def)
    then show ?thesis using find False Some by (auto simp: FlushPgImp_def)
  qed
qed

lemma FlushAllPgsImp_eq:
  "FlushAllPgsImp bpm =
      bpm\<lparr>pages := fst (flush_frames (pages bpm)),
          disk_writes := disk_writes bpm @ snd (flush_frames (pages bpm))\<rparr>"
  by (simp add: FlushAllPgsImp_def split: prod.splits)

theorem Flush_spec:
  assumes find: "HT_Find (page_table bpm) pid = Inr fo"
    and frame: "\<forall>f. fo = Some f \<longrightarrow> 0 \<le> f \<and> nat f < length (pages bpm)"
  shows "(\<exists>bpm' ok. FlushPgImp bpm pid = Inr (bpm', ok) \<and>
       (ok = False \<longleftrightarrow> pid = INVALID_PAGE_ID \<or> fo = None) \<and>
       (\<not> ok \<longrightarrow> bpm' = bpm) \<and>
       (ok \<longrightarrow> (\<exists>f. fo = Some f \<and>
          disk_writes bpm' = disk_writes bpm @ [(pid, data (pages bpm ! nat f))] \<and>
          pages bpm' = (pages bpm)[nat f := (pages bpm ! nat f)\<lparr>is_dirty := False\<rparr>] \<and>
          \<not> is_dirty (pages bpm' ! nat f) \<and>
          pin_count (pages bpm' ! nat f) = pin_count (pages bpm ! nat f) \<and>
          replacer bpm' = replacer bpm \<and> page_table bpm' = page_table bpm \<and>
          free_list bpm' = free_list bpm \<and> next_page_id_ctr bpm' = next_page_id_ctr bpm))) \<and>
     length (pages (FlushAllPgsImp bpm)) = length (pages bpm) \<and>
     (\<forall>i < length (pages bpm).
           pages (FlushAllPgsImp bpm) ! i =
             (if page_id (pages bpm ! i) \<noteq> INVALID_PAGE_ID
              then (pages bpm ! i)\<lparr>is_dirty := False\<rparr> else pages bpm ! i)) \<and>
     disk_writes (FlushAllPgsImp bpm) =
           disk_writes bpm @ map (\<lambda>p. (page_id p, data p))
                               (filter (\<lambda>p. page_id p \<noteq> INVALID_PAGE_ID) (pages bpm)) \<and>
     replacer (FlushAllPgsImp bpm) = replacer bpm \<and>
     page_table (FlushAllPgsImp bpm) = page_table bpm \<and>
     free_list (FlushAllPgsImp bpm) = free_list bpm"
  using FlushPgImp_general [OF find frame]
  by (simp add: FlushAllPgsImp_eq flush_frames_length flush_frames_nth flush_frames_writes)

theorem Flush_spec_witness:
  "(\<exists>bpm'. FlushPgImp bpm_example 5 = Inr (bpm', True) \<and>
       disk_writes bpm' = [(5, [1, 2])] \<and> \<not> is_dirty (pages bpm' ! 0) \<and>
       pin_count (pages bpm' ! 0) = 1 \<and> replacer bpm' = replacer bpm_example) \<and>
   FlushPgImp bpm_example 9 = Inr (bpm_example, False) \<and>
   disk_writes (FlushAllPgsImp bpm_example) = [(5, [1, 2]), (6, [3])] \<and>
   \<not> is_dirty (pages (FlushAllPgsImp bpm_example) ! 1) \<and>
   pin_count (pages (FlushAllPgsImp bpm_example) ! 0) = 1"
proof -
  have p: "pages bpm_example ! 0 = \<lparr>page_id = 5, pin_count = 1, is_dirty = False, data = [1, 2]\<rparr>"
    "pages bpm_example ! 1 = \<lparr>page_id = 6, pin_count = 0, is_dirty = True, data = [3]\<rparr>"
    "length (pages bpm_example) = 3" "disk_writes bpm_example = []"
    "map (\<lambda>p. (page_id p, data p))
       (filter (\<lambda>p. page_id p \<noteq> INVALID_PAGE_ID) (pages bpm_example)) = [(5, [1, 2]), (6, [3])]"
    by (simp_all add: bpm_example_def INVALID_PAGE_ID_def)
  have a: "\<forall>f. Some (0::int) = Some f \<longrightarrow> 0 \<le> f \<and> nat f < length (pages bpm_example)"
    using p by simp
  have c: "\<forall>f. (None :: int option) = Some f \<longrightarrow> 0 \<le> f \<and> nat f < length (pages bpm_example)"
    by simp
  have n: "(5::int) \<noteq> INVALID_PAGE_ID" "(9::int) \<noteq> INVALID_PAGE_ID" "(6::int) \<noteq> INVALID_PAGE_ID"
    by (simp_all add: INVALID_PAGE_ID_def)
  note A = Flush_spec [OF ex_find(1) a]
  note C = Flush_spec [OF ex_find(3) c]
  from A p n have 1: "\<exists>bpm'. FlushPgImp bpm_example 5 = Inr (bpm', True) \<and>
       disk_writes bpm' = [(5, [1, 2])] \<and> \<not> is_dirty (pages bpm' ! 0) \<and>
       pin_count (pages bpm' ! 0) = 1 \<and> replacer bpm' = replacer bpm_example"
    by auto
  from C n have 2: "FlushPgImp bpm_example 9 = Inr (bpm_example, False)" by auto
  from A p have 3: "disk_writes (FlushAllPgsImp bpm_example) = [(5, [1, 2]), (6, [3])]"
    by simp
  from A have "\<forall>i<length (pages bpm_example).
         pages (FlushAllPgsImp bpm_example) ! i =
         (if page_id (pages bpm_example ! i) \<noteq> INVALID_PAGE_ID
          then (pages bpm_example ! i)\<lparr>is_dirty := False\<rparr> else pages bpm_example ! i)"
    by blast
  then have "pages (FlushAllPgsImp bpm_example) ! 1 = (pages bpm_example ! 1)\<lparr>is_dirty := False\<rparr>"
    "pages (FlushAllPgsImp bpm_example) ! 0 = (pages bpm_example ! 0)\<lparr>is_dirty := False\<rparr>"
    using p n by simp_all
  then have 4: "\<not> is_dirty (pages (FlushAllPgsImp bpm_example) ! 1)"
    "pin_count (pages (FlushAllPgsImp bpm_example) ! 0) = 1"
    using p by simp_all
  from 1 2 3 4 show ?thesis by blast
qed

subsection \<open>B+-tree: sizes of the pages\<close>

lemma size_ok_SetParent [simp]: "size_ok L I (SetParentPageId x p) = size_ok L I p"
  by (cases p) (simp_all add: size_ok_def SetParentPageId_def)

lemma sb_weaken: "sizes_bounded_but L I X t \<Longrightarrow> X \<subseteq> Y \<Longrightarrow> sizes_bounded_but L I Y t"
  by (auto simp: sizes_bounded_but_def)











lemma length_insert_at [simp]: "length (insert_at pos x xs) = Suc (length xs)"
  by (simp add: insert_at_def)







lemma fetch_put: "FetchPage (put_page pid p t) q = (if q = pid then Some p else FetchPage t q)"
  by (simp add: FetchPage_def put_page_def)

lemma fetch_new:
  "FetchPage (snd (NewPage p t)) q = (if q = fresh_page_id t then Some p else FetchPage t q)"
  by (simp add: FetchPage_def NewPage_def)

lemma params_put [simp]: "leaf_max_size (put_page pid p t) = leaf_max_size t"
  "internal_max_size (put_page pid p t) = internal_max_size t"
  by (simp_all add: put_page_def)















lemma Coalesce_leaves:
  fixes t :: "('a, 'b) BPlusTree"
  assumes cur: "FetchPage t pid = Some (LeafPage cpar cm cits cnx)"
    and nr: "\<not> IsRootPage (LeafPage cpar cm cits cnx)"
    and par: "FetchPage t cpar = Some (InternalPage ppar pm es)"
    and idx: "value_index pid es = Some idx"
    and sid: "sid = (if 0 < idx then snd (es ! (idx - 1))
                     else if int idx < int (length es) - 1 then snd (es ! (idx + 1))
                     else INVALID_PAGE_ID)"
    and sne: "sid \<noteq> INVALID_PAGE_ID"
    and sib: "FetchPage t sid = Some (LeafPage spar sm sits snx)"
    and pn: "pn = (InternalPage ppar pm (remove_at (if 0 < idx then idx else idx + 1) es)
                    :: ('a, 'b) BPlusTreePage)"
    and tm: "tm = DeletePage (if 0 < idx then pid else sid)
                  (put_page cpar pn
                    (if 0 < idx then put_page sid (LeafPage spar sm (sits @ cits) cnx) t
                     else put_page pid (LeafPage cpar cm (cits @ sits) snx) t))"
  shows "CoalesceOrRedistribute (Suc n) t pid =
     (if GetMinSize (LeafPage spar sm sits snx) < GetSize (LeafPage spar sm sits snx) then
        (if 0 < idx then
           (if sits = [] then Inl OutOfRange
            else Inr (put_page cpar (InternalPage ppar pm (SetKeyAt idx (fst (last sits)) es))
                     (put_page sid (LeafPage spar sm (butlast sits) snx)
                     (put_page pid (LeafPage cpar cm (last sits # cits) cnx) t))))
         else
           (case sits of
              [] \<Rightarrow> Inl OutOfRange
            | [s0] \<Rightarrow> Inl OutOfRange
            | s0 # s1 # srest \<Rightarrow>
                Inr (put_page cpar (InternalPage ppar pm (SetKeyAt (idx + 1) (fst s1) es))
                    (put_page sid (LeafPage spar sm (s1 # srest) snx)
                    (put_page pid (LeafPage cpar cm (cits @ [s0]) cnx) t)))))
      else
        (if GetSize pn < GetMinSize pn \<and> \<not> IsRootPage pn
         then CoalesceOrRedistribute n tm cpar
         else Inr tm))"
proof (cases "0 < idx")
  case True
  then show ?thesis using cur nr par idx sne sib unfolding sid pn tm
    by (auto simp add: Let_def)
next
  case False
  then show ?thesis using cur nr par idx sne sib unfolding sid pn tm
    by (auto simp add: Let_def split: list.splits)
qed



lemma fetch_delete: "FetchPage (DeletePage p t) q = (if q = p then None else FetchPage t q)"
  by (simp add: FetchPage_def DeletePage_def)

lemma length_SetKeyAt [simp]: "length (SetKeyAt i key es) = length es"
  by (simp add: SetKeyAt_def)

lemma size_ok_LeafI: "leaf_bound L (length its) \<Longrightarrow> size_ok L I (LeafPage par L its nx)"
  by (simp add: size_ok_def)



lemma size_ok_InternalI: "int (length es) \<le> I \<Longrightarrow> size_ok L I (InternalPage par I es)"
  by (simp add: size_ok_def)








lemma S5_rem1_page3:
  "FetchPage (tree_after 4 4 (inserts S5_keys @ removes [1])) 3
     = Some (InternalPage 8 4 [(0, 1), (5, 2)])"
  by code_simp


lemma S5_runs: "\<not> isl (run_ops 30 (BPlusTree_new 4 4 1) (inserts S5_keys))"
  by code_simp

lemma S5_pages:
  "FetchPage (tree_after 4 4 (inserts S5_keys)) 1 = Some (LeafPage 3 4 [(1, 1), (2, 2)] 4)"
  "FetchPage (tree_after 4 4 (inserts S5_keys)) 3 = Some (InternalPage 8 4 [(0, 1), (3, 4), (5, 2)])"
  "FetchPage (tree_after 4 4 (inserts S5_keys)) 4 = Some (LeafPage 3 4 [(3, 3), (4, 4)] 2)"
  "FetchPage (tree_after 4 4 (inserts S5_keys)) 8 = Some (InternalPage (- 1) 4 [(0, 3), (8, 7)])"
  by code_simp+

lemma S5_rem1_page8:
  "FetchPage (tree_after 4 4 (inserts S5_keys @ removes [1])) 8
     = Some (InternalPage (- 1) 4 [(0, 3), (8, 7)])"
  by code_simp

lemma Coalesce_internal:
  fixes t :: "('a, 'b) BPlusTree"
  assumes "FetchPage t pid = Some (InternalPage par m es)"
  shows "CoalesceOrRedistribute (Suc n) t pid =
     (if par \<noteq> INVALID_PAGE_ID \<and> (case FetchPage t par of Some p \<Rightarrow> IsLeafPage p | None \<Rightarrow> False)
      then Inl WrongPageType else Inr t)"
  using assms
  by (auto simp: IsRootPage_def IsLeafPage_def Let_def split: option.splits BPlusTreePage.splits)




subsection \<open>B+-tree: underflow of an internal page\<close>

text \<open>
  Claim C2, as the code has it. \<open>CoalesceOrRedistribute\<close> on an internal page returns
  the tree as it is (a parent that is a leaf page is a failure): no item is moved and
  no page is merged. On a leaf with a leaf sibling it moves one item from the sibling
  and rewrites the separator in the parent when the sibling has more than
  \<open>min_size\<close> items, and otherwise merges the two leaves and takes one entry from the
  parent; the parent is then left as it is, also when it is below its \<open>min_size\<close> and
  not the root.
\<close>

theorem CoalesceOrRedistribute_leaves_only:
  fixes t :: "('a, 'b) BPlusTree"
  shows
  "(FetchPage t pid = Some (InternalPage par m es0) \<longrightarrow>
      CoalesceOrRedistribute (Suc n) t pid =
        (if par \<noteq> INVALID_PAGE_ID \<and> (case FetchPage t par of Some p \<Rightarrow> IsLeafPage p | None \<Rightarrow> False)
         then Inl WrongPageType else Inr t)) \<and>
   (FetchPage t pid = Some (LeafPage cpar cm cits cnx) \<and> cpar \<noteq> INVALID_PAGE_ID \<and>
    FetchPage t cpar = Some (InternalPage ppar pm es) \<and>
    value_index pid es = Some idx \<and>
    sid = (if 0 < idx then snd (es ! (idx - 1))
           else if int idx < int (length es) - 1 then snd (es ! (idx + 1))
           else INVALID_PAGE_ID) \<and>
    sid \<noteq> INVALID_PAGE_ID \<and>
    FetchPage t sid = Some (LeafPage spar sm sits snx) \<and>
    pn = InternalPage ppar pm (remove_at (if 0 < idx then idx else idx + 1) es) \<and>
    tm = DeletePage (if 0 < idx then pid else sid)
           (put_page cpar pn
              (if 0 < idx then put_page sid (LeafPage spar sm (sits @ cits) cnx) t
               else put_page pid (LeafPage cpar cm (cits @ sits) snx) t)) \<longrightarrow>
      CoalesceOrRedistribute (Suc (Suc n)) t pid =
        (if (sm + 1) div 2 < int (length sits) then
           (if 0 < idx then
              (if sits = [] then Inl OutOfRange
               else Inr (put_page cpar (InternalPage ppar pm (SetKeyAt idx (fst (last sits)) es))
                        (put_page sid (LeafPage spar sm (butlast sits) snx)
                        (put_page pid (LeafPage cpar cm (last sits # cits) cnx) t))))
            else
              (case sits of
                 [] \<Rightarrow> Inl OutOfRange
               | [s0] \<Rightarrow> Inl OutOfRange
               | s0 # s1 # srest \<Rightarrow>
                   Inr (put_page cpar (InternalPage ppar pm (SetKeyAt (idx + 1) (fst s1) es))
                       (put_page sid (LeafPage spar sm (s1 # srest) snx)
                       (put_page pid (LeafPage cpar cm (cits @ [s0]) cnx) t)))))
         else if GetSize pn < GetMinSize pn \<and> ppar \<noteq> INVALID_PAGE_ID \<and>
                 (case FetchPage tm ppar of Some p \<Rightarrow> IsLeafPage p | None \<Rightarrow> False)
              then Inl WrongPageType
              else Inr tm))"
proof -
  have A: "FetchPage t pid = Some (InternalPage par m es0) \<longrightarrow>
      CoalesceOrRedistribute (Suc n) t pid =
        (if par \<noteq> INVALID_PAGE_ID \<and> (case FetchPage t par of Some p \<Rightarrow> IsLeafPage p | None \<Rightarrow> False)
         then Inl WrongPageType else Inr t)"
    by (rule impI) (rule Coalesce_internal)
  have B: "CoalesceOrRedistribute (Suc (Suc n)) t pid =
        (if (sm + 1) div 2 < int (length sits) then
           (if 0 < idx then
              (if sits = [] then Inl OutOfRange
               else Inr (put_page cpar (InternalPage ppar pm (SetKeyAt idx (fst (last sits)) es))
                        (put_page sid (LeafPage spar sm (butlast sits) snx)
                        (put_page pid (LeafPage cpar cm (last sits # cits) cnx) t))))
            else
              (case sits of
                 [] \<Rightarrow> Inl OutOfRange
               | [s0] \<Rightarrow> Inl OutOfRange
               | s0 # s1 # srest \<Rightarrow>
                   Inr (put_page cpar (InternalPage ppar pm (SetKeyAt (idx + 1) (fst s1) es))
                       (put_page sid (LeafPage spar sm (s1 # srest) snx)
                       (put_page pid (LeafPage cpar cm (cits @ [s0]) cnx) t)))))
         else if GetSize pn < GetMinSize pn \<and> ppar \<noteq> INVALID_PAGE_ID \<and>
                 (case FetchPage tm ppar of Some p \<Rightarrow> IsLeafPage p | None \<Rightarrow> False)
              then Inl WrongPageType
              else Inr tm)"
    if h: "FetchPage t pid = Some (LeafPage cpar cm cits cnx) \<and> cpar \<noteq> INVALID_PAGE_ID \<and>
    FetchPage t cpar = Some (InternalPage ppar pm es) \<and>
    value_index pid es = Some idx \<and>
    sid = (if 0 < idx then snd (es ! (idx - 1))
           else if int idx < int (length es) - 1 then snd (es ! (idx + 1))
           else INVALID_PAGE_ID) \<and>
    sid \<noteq> INVALID_PAGE_ID \<and>
    FetchPage t sid = Some (LeafPage spar sm sits snx) \<and>
    pn = InternalPage ppar pm (remove_at (if 0 < idx then idx else idx + 1) es) \<and>
    tm = DeletePage (if 0 < idx then pid else sid)
           (put_page cpar pn
              (if 0 < idx then put_page sid (LeafPage spar sm (sits @ cits) cnx) t
               else put_page pid (LeafPage cpar cm (cits @ sits) snx) t))"
  proof -
    note cur = h [THEN conjunct1]
    note c2 = h [THEN conjunct2]
    note nr0 = c2 [THEN conjunct1]
    note c3 = c2 [THEN conjunct2]
    note par = c3 [THEN conjunct1]
    note c4 = c3 [THEN conjunct2]
    note idx = c4 [THEN conjunct1]
    note c5 = c4 [THEN conjunct2]
    note sid = c5 [THEN conjunct1]
    note c6 = c5 [THEN conjunct2]
    note sne = c6 [THEN conjunct1]
    note c7 = c6 [THEN conjunct2]
    note sib = c7 [THEN conjunct1]
    note c8 = c7 [THEN conjunct2]
    note pn = c8 [THEN conjunct1]
    note tm = c8 [THEN conjunct2]
    have nr: "\<not> IsRootPage (LeafPage cpar cm cits cnx :: ('a, 'b) BPlusTreePage)"
      using nr0 by (simp add: IsRootPage_def)
    note unf = Coalesce_leaves [OF cur nr par idx sid sne sib pn tm, of "Suc n"]
    have ne: "cpar \<noteq> pid" "cpar \<noteq> sid" using cur par sib by auto
    have fp: "FetchPage tm cpar = Some (InternalPage ppar pm (remove_at (if 0 < idx then idx else idx + 1) es))"
      using ne by (simp add: tm pn fetch_delete fetch_put)
    have rec: "CoalesceOrRedistribute (Suc n) tm cpar =
        (if ppar \<noteq> INVALID_PAGE_ID \<and> (case FetchPage tm ppar of Some p \<Rightarrow> IsLeafPage p | None \<Rightarrow> False)
         then Inl WrongPageType else Inr tm)"
      by (rule Coalesce_internal [OF fp])
    have root: "IsRootPage pn \<longleftrightarrow> ppar = INVALID_PAGE_ID" by (simp add: pn IsRootPage_def)
    have ms: "GetMinSize (LeafPage spar sm sits snx :: ('a, 'b) BPlusTreePage) = (sm + 1) div 2"
      "GetSize (LeafPage spar sm sits snx :: ('a, 'b) BPlusTreePage) = int (length sits)"
      by (simp_all add: GetMinSize_def GetSize_def)
    show ?thesis unfolding unf rec root ms by (simp cong: if_cong)
  qed
  show ?thesis by (rule conjI [OF A impI [OF B]])
qed

theorem CoalesceOrRedistribute_leaves_only_witness:
  "FetchPage (tree_after 4 4 (inserts S5_keys @ removes [1])) 3
     = Some (InternalPage 8 4 [(0, 1), (5, 2)]) \<and>
   CoalesceOrRedistribute 1 (tree_after 4 4 (inserts S5_keys @ removes [1])) 3
     = Inr (tree_after 4 4 (inserts S5_keys @ removes [1])) \<and>
   FetchPage (put_page 1 (LeafPage 3 4 [(2, 2)] 4) (tree_after 4 4 (inserts S5_keys))) 1
     = Some (LeafPage 3 4 [(2, 2)] 4) \<and>
   FetchPage (put_page 1 (LeafPage 3 4 [(2, 2)] 4) (tree_after 4 4 (inserts S5_keys))) 3
     = Some (InternalPage 8 4 [(0, 1), (3, 4), (5, 2)]) \<and>
   value_index 1 [(0 :: int, 1), (3, 4), (5, 2)] = Some 0 \<and>
   FetchPage (put_page 1 (LeafPage 3 4 [(2, 2)] 4) (tree_after 4 4 (inserts S5_keys))) 4
     = Some (LeafPage 3 4 [(3, 3), (4, 4)] 2) \<and>
   GetSize (InternalPage 8 4 [(0, 1), (5 :: int, 2)] :: (int, int) BPlusTreePage) = 2 \<and>
   GetMinSize (InternalPage 8 4 [(0, 1), (5 :: int, 2)] :: (int, int) BPlusTreePage) = 3 \<and>
   CoalesceOrRedistribute 2
       (put_page 1 (LeafPage 3 4 [(2, 2)] 4) (tree_after 4 4 (inserts S5_keys))) 1
     = Inr (DeletePage 4
             (put_page 3 (InternalPage 8 4 [(0, 1), (5, 2)])
               (put_page 1 (LeafPage 3 4 [(2, 2), (3, 3), (4, 4)] 2)
                 (put_page 1 (LeafPage 3 4 [(2, 2)] 4) (tree_after 4 4 (inserts S5_keys))))))"
proof -
  let ?T = "tree_after 4 4 (inserts S5_keys @ removes [1])"
  let ?T1 = "put_page 1 (LeafPage 3 4 [(2, 2)] 4) (tree_after 4 4 (inserts S5_keys))"
  let ?es = "[(0 :: int, 1 :: int), (3, 4), (5, 2)]"
  have a1: "FetchPage ?T 3 = Some (InternalPage 8 4 [(0, 1), (5, 2)])"
    by (rule S5_rem1_page3)
  note A = CoalesceOrRedistribute_leaves_only
    [where t = "?T" and pid = 3 and par = 8 and m = 4 and ?es0.0 = "[(0, 1), (5, 2)]" and n = 0,
     THEN conjunct1, THEN mp, OF a1]
  have a2: "CoalesceOrRedistribute 1 ?T 3 = Inr ?T"
    using A by (simp add: S5_rem1_page8 IsLeafPage_def)
  have b1: "FetchPage ?T1 1 = Some (LeafPage 3 4 [(2, 2)] 4)"
    by (simp add: fetch_put)
  have b2: "FetchPage ?T1 3 = Some (InternalPage 8 4 ?es)"
    by (simp add: fetch_put S5_pages)
  have b3: "value_index 1 ?es = Some 0" by simp
  have b4: "FetchPage ?T1 4 = Some (LeafPage 3 4 [(3, 3), (4, 4)] 2)"
    by (simp add: fetch_put S5_pages)
  have b5: "(3 :: int) \<noteq> INVALID_PAGE_ID" "(4 :: int) \<noteq> INVALID_PAGE_ID"
    by (simp_all add: INVALID_PAGE_ID_def)
  have b6: "(4 :: int) = (if 0 < (0 :: nat) then snd (?es ! (0 - 1))
           else if int 0 < int (length ?es) - 1 then snd (?es ! (0 + 1))
           else INVALID_PAGE_ID)"
    by simp
  note B = CoalesceOrRedistribute_leaves_only
    [where t = "?T1" and pid = 1 and cpar = 3 and cm = 4 and cits = "[(2, 2)]" and cnx = 4
       and ppar = 8 and pm = 4 and es = "?es" and idx = 0 and sid = 4
       and spar = 3 and sm = 4 and sits = "[(3, 3), (4, 4)]" and snx = 2 and n = 0
       and pn = "InternalPage 8 4 (remove_at (if 0 < (0 :: nat) then 0 else 0 + 1) ?es)"
       and tm = "DeletePage (if 0 < (0 :: nat) then 1 else 4)
           (put_page 3 (InternalPage 8 4 (remove_at (if 0 < (0 :: nat) then 0 else 0 + 1) ?es))
              (if 0 < (0 :: nat) then put_page 4 (LeafPage 3 4 ([(3, 3), (4, 4)] @ [(2, 2)]) 4) ?T1
               else put_page 1 (LeafPage 3 4 ([(2, 2)] @ [(3, 3), (4, 4)]) 2) ?T1))",
     THEN conjunct2, THEN mp,
     OF conjI [OF b1 conjI [OF b5(1) conjI [OF b2 conjI [OF b3 conjI [OF b6 conjI [OF b5(2)
        conjI [OF b4 conjI [OF refl refl]]]]]]]]]
  have c1: "GetSize (InternalPage 8 4 [(0, 1), (5 :: int, 2)] :: (int, int) BPlusTreePage) = 2"
    "GetMinSize (InternalPage 8 4 [(0, 1), (5 :: int, 2)] :: (int, int) BPlusTreePage) = 3"
    by (simp_all add: GetSize_def GetMinSize_def)
  have b7: "CoalesceOrRedistribute 2 ?T1 1
     = Inr (DeletePage 4
             (put_page 3 (InternalPage 8 4 [(0, 1), (5, 2)])
               (put_page 1 (LeafPage 3 4 [(2, 2), (3, 3), (4, 4)] 2) ?T1)))"
    using B
    by (simp add: remove_at_def c1 fetch_delete fetch_put S5_pages IsLeafPage_def
        INVALID_PAGE_ID_def numeral_2_eq_2)
  show ?thesis by (intro conjI a1 a2 b1 b2 b3 b4 c1 b7)
qed

text \<open>
  Claim C2 as stated fails. In the tree of scenario S5, \<open>Remove(1)\<close> merges two leaves
  under the internal page 3, which is left with 2 children, below its \<open>min_size\<close> of 3,
  and is not the root. Its sibling, page 7, has 3 children, so a merge is due; page 7 and
  the root, page 8, are as before, and page 3 still stands.
\<close>

theorem internal_underflow_counterexample:
  "(case run_ops 30 (BPlusTree_new 4 4 1) (inserts S5_keys) of
      Inl e \<Rightarrow> False
    | Inr t \<Rightarrow>
        FetchPage t 3 = Some (InternalPage 8 4 [(0, 1), (3, 4), (5, 2)]) \<and>
        FetchPage t 7 = Some (InternalPage 8 4 [(0, 5), (10, 6), (12, 9)]) \<and>
        FetchPage t 8 = Some (InternalPage (- 1) 4 [(0, 3), (8, 7)]) \<and>
        (case Remove 30 t 1 of
           Inl e \<Rightarrow> False
         | Inr t' \<Rightarrow>
             FetchPage t' 3 = Some (InternalPage 8 4 [(0, 1), (5, 2)]) \<and>
             GetSize (InternalPage 8 4 [(0, 1), (5 :: int, 2)] :: (int, int) BPlusTreePage)
               < GetMinSize (InternalPage 8 4 [(0, 1), (5 :: int, 2)] :: (int, int) BPlusTreePage) \<and>
             \<not> IsRootPage (InternalPage 8 4 [(0, 1), (5 :: int, 2)] :: (int, int) BPlusTreePage) \<and>
             FetchPage t' 7 = Some (InternalPage 8 4 [(0, 5), (10, 6), (12, 9)]) \<and>
             FetchPage t' 8 = Some (InternalPage (- 1) 4 [(0, 3), (8, 7)])))"
  by code_simp

subsection \<open>B+-tree: removing every key\<close>

text \<open>
  Claim C1, evaluated. With fanouts 4 and 4, after the inserts of scenario S5 and the
  removes of 1 to 13 the tree is not empty: the root is still the internal page 8. After
  the inserts of 1, 2, 3, 4 and the removes of 1, 2, 3, 4 the root is the internal page 3
  with one child, an empty leaf. A tree that never grew beyond its root leaf is empty
  after its keys are removed. After the inserts of S5 alone, the iteration from
  \<open>Begin()\<close> to \<open>End()\<close> gives the keys 1 to 13 in order.
\<close>

theorem Remove_all_keeps_internal_root:
  "(case run_ops 30 (BPlusTree_new 4 4 1) (inserts S5_keys @ removes [1, 2, 3, 4, 5, 6, 7, 8, 9, 10, 11, 12, 13]) of
      Inl e \<Rightarrow> False
    | Inr t \<Rightarrow> \<not> IsEmpty t \<and> GetRootPageId t = 8 \<and>
              FetchPage t 8 = Some (InternalPage (- 1) 4 [(0, 3), (8, 7)])) \<and>
   (case run_ops 30 (BPlusTree_new 4 4 1) (inserts [1, 2, 3, 4] @ removes [1, 2, 3, 4]) of
      Inl e \<Rightarrow> False
    | Inr t \<Rightarrow> \<not> IsEmpty t \<and> GetRootPageId t = 3 \<and>
              FetchPage t 3 = Some (InternalPage (- 1) 4 [(0, 1)]) \<and>
              FetchPage t 1 = Some (LeafPage 3 4 [] (- 1))) \<and>
   (case run_ops 30 (BPlusTree_new 4 4 1) (inserts [1, 2, 3] @ removes [2, 3, 1]) of
      Inl e \<Rightarrow> False
    | Inr t \<Rightarrow> IsEmpty t \<and> GetRootPageId t = INVALID_PAGE_ID) \<and>
   (case run_ops 30 (BPlusTree_new 4 4 1) (inserts S5_keys) of
      Inl e \<Rightarrow> False
    | Inr t \<Rightarrow> (case Begin 30 t of
                 Inl e \<Rightarrow> False
               | Inr it \<Rightarrow> collect_keys 30 t it = Inr [1, 2, 3, 4, 5, 6, 7, 8, 9, 10, 11, 12, 13]))"
  by code_simp

end
